theory Spec2Isabelle
  imports Main
begin

section \<open>Data model of the rewards module (class LidoSDKRewards)\<close>

text \<open>
  Addresses are the hexadecimal strings the SDK passes around; the chain path compares
  them with the strict equality of strings, as the source does.  All \<open>bigint\<close> values
  are unbounded integers.  The \<open>number\<close> values \<open>step\<close> and \<open>logIndex\<close> are
  modelled as integers as well (the values an event log or a step count can take).
\<close>

type_synonym address = string

definition zeroAddress :: address where
  "zeroAddress = ''0x0000000000000000000000000000000000000000''"

datatype reward_type = Submit | TransferIn | TransferOut | Withdrawal | Rebase

datatype error_code = INVALID_ARGUMENT | NOT_SUPPORTED

text \<open>
  Every way a call can stop early: an SDK error with its code, or one of the two
  built-in JavaScript exceptions the resolver can run into.
\<close>

datatype error = SDKError error_code | JSTypeError | JSRangeError

record 'e reward =
  rtype :: reward_type
  balanceShares :: int
  changeShares :: int
  change :: int
  balance :: int
  shareRate :: int
  originalEvent :: 'e

subsection \<open>Events of the chain source\<close>

datatype chain_args =
    TransferShares (ts_from: address) (ts_to: address) (sharesValue: int)
  | TokenRebased (postTotalEther: int) (postTotalShares: int)

record chain_event =
  blockNumber :: int
  logIndex :: int
  args :: chain_args

subsection \<open>Entities of the subgraph source\<close>

record transfer_entity =
  te_from :: address
  te_to :: address
  te_shares :: int
  te_sharesAfterIncrease :: int
  te_value :: int
  te_balanceAfterDecrease :: int
  te_balanceAfterIncrease :: int
  te_sharesAfterDecrease :: int
  te_totalPooledEther :: int
  te_totalShares :: int
  te_block :: int
  te_logIndex :: int

record total_reward_entity =
  tr_totalPooledEtherAfter :: int
  tr_totalSharesAfter :: int
  tr_block :: int
  tr_logIndex :: int

text \<open>
  The source tells the two entities apart by the field they carry: a transfer has
  \<open>value\<close>, a total reward has \<open>apr\<close>.  The two constructors are that test.
\<close>

datatype subgraph_event =
    TransferEvent transfer_entity
  | TotalReward total_reward_entity

subsection \<open>Options of a query\<close>

datatype block_tag = Latest | Earliest | Pending | Safe | Finalized

datatype block_spec = BlockNumber int | BlockTag block_tag

record block_arg =
  ba_timestamp :: "int option"
  ba_block :: "block_spec option"

record back_arg =
  blocks :: "int option"
  days :: "int option"
  seconds :: "int option"

record rewards_props =
  address :: address
  to_arg :: "block_arg option"
  from_arg :: "block_arg option"
  back_spec :: "back_arg option"
  step :: "int option"
  includeZeroRebases :: "bool option"
  includeOnlyRebases :: "bool option"

record parsed_props =
  p_address :: address
  p_fromBlock :: int
  p_toBlock :: int
  p_step :: int
  p_includeZeroRebases :: bool
  p_includeOnlyRebases :: bool

subsection \<open>The ledger returned to the caller\<close>

record 'e rewards_result =
  rewards :: "'e reward list"
  baseBalanceShares :: int
  baseShareRate :: int
  baseBalance :: int
  totalRewards :: int
  fromBlock :: int
  toBlock :: int

record 'e subgraph_result = "'e rewards_result" +
  lastIndexedBlock :: int

section \<open>Share-rate arithmetic\<close>

text \<open>Division of two \<open>bigint\<close> values truncates toward zero.\<close>

definition bigint_div :: "int \<Rightarrow> int \<Rightarrow> int" where
  "bigint_div a b = sgn a * sgn b * (\<bar>a\<bar> div \<bar>b\<bar>)"

definition PRECISION :: int where
  "PRECISION = 10 ^ 27"

definition DEFAULT_STEP :: int where
  "DEFAULT_STEP = 1000"

text \<open>
  Modelled from the spec: \<open>sharesToSteth\<close> of \<open>rewards/utils.js\<close> is not among the
  sources.  The specification gives it as
  \<open>shares * totalAssetUnits / totalShares\<close> when \<open>totalShares > 0\<close>, else \<open>0\<close>, in exact
  integers with truncating division.
\<close>

definition sharesToSteth :: "int \<Rightarrow> int \<Rightarrow> int \<Rightarrow> int \<Rightarrow> int" where
  "sharesToSteth shares totalEther totalShares precision =
     (if totalShares > 0 then bigint_div (shares * totalEther) totalShares else 0)"

text \<open>
  Modelled from the spec: \<open>calcShareRate\<close> of \<open>rewards/utils.js\<close> is not among the
  sources.  The specification gives it as
  \<open>totalAssetUnits * precision / totalShares\<close> when \<open>totalShares > 0\<close>, else \<open>0\<close>.
\<close>

definition calcShareRate :: "int \<Rightarrow> int \<Rightarrow> int \<Rightarrow> int" where
  "calcShareRate totalEther totalShares precision =
     (if totalShares > 0 then bigint_div (totalEther * precision) totalShares else 0)"

section \<open>Range resolver\<close>

text \<open>
  The collaborators of the resolver: \<open>rpcProvider.getBlock\<close> answers the number of
  the block behind a tag (\<open>None\<close> is the \<open>null\<close> number of a pending block; the tag
  is absent when the argument carries none), \<open>getLatestBlockToTimestamp\<close> answers the
  number of the latest block at or before a timestamp, and \<open>date_now\<close> is the value
  of \<open>Date.now()\<close> in milliseconds.
\<close>

record core_env =
  getBlock :: "block_tag option \<Rightarrow> int option"
  getLatestBlockToTimestamp :: "int \<Rightarrow> int"
  date_now :: int

text \<open>
  Modelled from the spec: \<open>invariantArgument\<close> of the package index is not among the
  sources.  The specification calls its failure an argument error; it raises when the
  condition it is given does not hold.
\<close>

definition invariantArgument :: "bool \<Rightarrow> 'a \<Rightarrow> error + 'a" where
  "invariantArgument condition v = (if condition then Inr v else Inl (SDKError INVALID_ARGUMENT))"

text \<open>
  A \<open>bigint\<close> used as a condition (\<open>if (arg.blocks)\<close>, \<open>invariantArgument(number, ...)\<close>)
  holds when it is present and not \<open>0n\<close>.
\<close>

definition truthy :: "int option \<Rightarrow> bool" where
  "truthy v = (case v of None \<Rightarrow> False | Some n \<Rightarrow> n \<noteq> 0)"

definition toBlockNumber :: "core_env \<Rightarrow> block_arg \<Rightarrow> error + int" where
  "toBlockNumber env arg =
     (if truthy (ba_timestamp arg)
      then Inr (getLatestBlockToTimestamp env (the (ba_timestamp arg)))
      else (case ba_block arg of
              Some (BlockNumber n) \<Rightarrow> Inr n
            | Some (BlockTag tg) \<Rightarrow>
                (let number = getBlock env (Some tg)
                 in invariantArgument (truthy number) (the number))
            | None \<Rightarrow>
                (let number = getBlock env None
                 in invariantArgument (truthy number) (the number))))"

definition toBackBlock :: "core_env \<Rightarrow> back_arg \<Rightarrow> int \<Rightarrow> error + int" where
  "toBackBlock env arg start =
     (if truthy (blocks arg) then
        (let end = start - the (blocks arg)
         in invariantArgument (end \<ge> 0) end)
      else if truthy (days arg) then
        (let date = bigint_div (date_now env - the (days arg) * 86400000) 1000
         in Inr (getLatestBlockToTimestamp env date))
      else if truthy (seconds arg) then
        (if date_now env mod 1000 = 0
         then Inr (getLatestBlockToTimestamp env (date_now env div 1000 - the (seconds arg)))
         else Inl JSRangeError)
      else Inl (SDKError INVALID_ARGUMENT))"

definition default_to :: block_arg where
  "default_to = \<lparr>ba_timestamp = None, ba_block = Some (BlockTag Latest)\<rparr>"

definition parseProps :: "core_env \<Rightarrow> rewards_props \<Rightarrow> error + parsed_props" where
  "parseProps env props =
     (case toBlockNumber env (case to_arg props of Some a \<Rightarrow> a | None \<Rightarrow> default_to) of
        Inl e \<Rightarrow> Inl e
      | Inr toB \<Rightarrow>
         (case (case from_arg props of
                  Some a \<Rightarrow> toBlockNumber env a
                | None \<Rightarrow> (case back_spec props of
                             None \<Rightarrow> Inl JSTypeError
                           | Some b \<Rightarrow> toBackBlock env b toB)) of
            Inl e \<Rightarrow> Inl e
          | Inr fromB \<Rightarrow>
             (if \<not> toB \<ge> fromB then Inl (SDKError INVALID_ARGUMENT)
              else
                (let stp = (case step props of Some s \<Rightarrow> s | None \<Rightarrow> DEFAULT_STEP);
                     zero = (case includeZeroRebases props of Some b \<Rightarrow> b | None \<Rightarrow> False);
                     only = (case includeOnlyRebases props of Some b \<Rightarrow> b | None \<Rightarrow> False)
                 in if \<not> stp > 0 then Inl (SDKError INVALID_ARGUMENT)
                    else Inr \<lparr>p_address = address props, p_fromBlock = fromB,
                              p_toBlock = toB, p_step = stp,
                              p_includeZeroRebases = zero,
                              p_includeOnlyRebases = only\<rparr>))))"

section \<open>Merging the event streams\<close>

text \<open>
  \<open>Array.prototype.sort\<close> with a comparison function is a stable sort: an element
  goes before another when the comparison of the two is negative, and elements that
  compare equal keep the order they had.  It is modelled by a stable insertion sort
  that takes the comparison function of the source.
\<close>

fun insert_by :: "('a \<Rightarrow> 'a \<Rightarrow> int) \<Rightarrow> 'a \<Rightarrow> 'a list \<Rightarrow> 'a list" where
  "insert_by cmp x [] = [x]"
| "insert_by cmp x (y # ys) =
     (if cmp x y \<le> 0 then x # y # ys else y # insert_by cmp x ys)"

definition sort_by :: "('a \<Rightarrow> 'a \<Rightarrow> int) \<Rightarrow> 'a list \<Rightarrow> 'a list" where
  "sort_by cmp xs = foldr (insert_by cmp) xs []"

text \<open>The comparison function of \<open>getRewardsFromChain\<close>.\<close>

definition compare_chain :: "chain_event \<Rightarrow> chain_event \<Rightarrow> int" where
  "compare_chain event1 event2 =
     (let block = blockNumber event1 - blockNumber event2
      in if block = 0 then logIndex event1 - logIndex event2
         else if block > 0 then 1 else - 1)"

fun sg_block :: "subgraph_event \<Rightarrow> int" where
  "sg_block (TransferEvent t) = te_block t"
| "sg_block (TotalReward r) = tr_block r"

fun sg_logIndex :: "subgraph_event \<Rightarrow> int" where
  "sg_logIndex (TransferEvent t) = te_logIndex t"
| "sg_logIndex (TotalReward r) = tr_logIndex r"

text \<open>The comparison function of \<open>getRewardsFromSubgraph\<close>.\<close>

definition compare_subgraph :: "subgraph_event \<Rightarrow> subgraph_event \<Rightarrow> int" where
  "compare_subgraph event1 event2 =
     (let block = sg_block event1 - sg_block event2
      in if block = 0 then sg_logIndex event1 - sg_logIndex event2
         else if block > 0 then 1 else - 1)"

section \<open>Post-filters\<close>

definition is_rebase :: "'e reward \<Rightarrow> bool" where
  "is_rebase r = (rtype r = Rebase)"

definition not_zero_rebase :: "'e reward \<Rightarrow> bool" where
  "not_zero_rebase r = (\<not> (rtype r = Rebase \<and> change r = 0))"

section \<open>The chain path: getRewardsFromChain\<close>

text \<open>
  The collaborators of the chain path.  The three event readers stand for
  \<open>requestWithBlockStep\<close> around \<open>getEvents\<close>: they take the step and the two block
  bounds and answer the concatenated chunks.  \<open>earliestRebaseEventBlock\<close> is the entry
  of \<open>EARLIEST_TOKEN_REBASED_EVENT\<close> for the chain of the instance.
\<close>

record chain_env =
  core :: core_env
  earliestRebaseEventBlock :: int
  contractAddressWithdrawalQueue :: address
  sharesOf :: "address \<Rightarrow> int \<Rightarrow> int"
  getTotalPooledEther :: "int \<Rightarrow> int"
  getTotalShares :: "int \<Rightarrow> int"
  transferSharesFrom :: "address \<Rightarrow> int \<Rightarrow> int \<Rightarrow> int \<Rightarrow> chain_event list"
  transferSharesTo :: "address \<Rightarrow> int \<Rightarrow> int \<Rightarrow> int \<Rightarrow> chain_event list"
  tokenRebased :: "int \<Rightarrow> int \<Rightarrow> int \<Rightarrow> chain_event list"

text \<open>The variables the callback of \<open>events.map\<close> reads and assigns.\<close>

record chain_state =
  currentTotalEther :: int
  currentTotalShares :: int
  acc_totalRewards :: int
  cur_shareRate :: int
  prevSharesBalance :: int

definition getCurrentStethFromShares :: "chain_state \<Rightarrow> int \<Rightarrow> int" where
  "getCurrentStethFromShares st shares =
     sharesToSteth shares (currentTotalEther st) (currentTotalShares st) PRECISION"

definition getCurrentShareRate :: "chain_state \<Rightarrow> int" where
  "getCurrentShareRate st =
     calcShareRate (currentTotalEther st) (currentTotalShares st) PRECISION"

text \<open>
  One call of the callback: the record it returns and the variables afterwards.  The
  type of the events has the two variants only, so the final \<open>invariant(false)\<close> of the
  callback has no input that reaches it.
\<close>

definition chain_step ::
  "address \<Rightarrow> address \<Rightarrow> chain_state \<Rightarrow> chain_event \<Rightarrow> chain_event reward \<times> chain_state" where
  "chain_step addr withdrawalQueueAddress st event =
     (case args event of
        TransferShares from to sharesV \<Rightarrow>
          (let (type, balShares, chShares) =
                 (if to = addr
                  then (if from = zeroAddress then Submit else TransferIn,
                        prevSharesBalance st + sharesV, sharesV)
                  else (if to = withdrawalQueueAddress then Withdrawal else TransferOut,
                        prevSharesBalance st - sharesV, - sharesV))
           in (\<lparr>rtype = type, balanceShares = balShares, changeShares = chShares,
                 change = getCurrentStethFromShares st chShares,
                 balance = getCurrentStethFromShares st balShares,
                 shareRate = cur_shareRate st, originalEvent = event\<rparr>,
               st\<lparr>prevSharesBalance := balShares\<rparr>))
      | TokenRebased postEther postShares \<Rightarrow>
          (let oldBalance = getCurrentStethFromShares st (prevSharesBalance st);
               st1 = st\<lparr>currentTotalEther := postEther, currentTotalShares := postShares\<rparr>;
               newBalance = getCurrentStethFromShares st1 (prevSharesBalance st1);
               st2 = st1\<lparr>cur_shareRate := getCurrentShareRate st1\<rparr>;
               chg = newBalance - oldBalance;
               st3 = st2\<lparr>acc_totalRewards := acc_totalRewards st2 + chg\<rparr>
           in (\<lparr>rtype = Rebase, balanceShares = prevSharesBalance st3, changeShares = 0,
                 change = chg, balance = newBalance,
                 shareRate = cur_shareRate st3, originalEvent = event\<rparr>,
               st3)))"

text \<open>\<open>events.map\<close> with that callback: the records, and the variables at the end.\<close>

fun chain_map ::
  "address \<Rightarrow> address \<Rightarrow> chain_state \<Rightarrow> chain_event list \<Rightarrow> chain_event reward list \<times> chain_state" where
  "chain_map addr wq st [] = ([], st)"
| "chain_map addr wq st (e # es) =
     (let (r, st') = chain_step addr wq st e;
          (rs, st'') = chain_map addr wq st' es
      in (r # rs, st''))"

text \<open>
  \<open>core.error\<close> of \<open>LidoSDKCore\<close> is not among the sources.  It is handed a message
  and a code and builds the SDK error of that code; it is a value, which stops a call
  only where the caller throws it.
\<close>

definition core_error :: "error_code \<Rightarrow> error" where
  "core_error code = SDKError code"

definition chain_events :: "chain_env \<Rightarrow> parsed_props \<Rightarrow> chain_event list" where
  "chain_events env p =
     (let transferOutEvents =
            transferSharesFrom env (p_address p) (p_step p) (p_fromBlock p) (p_toBlock p);
          transferInEvents =
            transferSharesTo env (p_address p) (p_step p) (p_fromBlock p) (p_toBlock p);
          rebaseEvents = tokenRebased env (p_step p) (p_fromBlock p) (p_toBlock p)
      in sort_by compare_chain (transferInEvents @ transferOutEvents @ rebaseEvents))"

text \<open>The block before the range, at which both paths read the base state.\<close>

definition preBlock_of :: "parsed_props \<Rightarrow> int" where
  "preBlock_of p = (if p_fromBlock p = 0 then 0 else p_fromBlock p - 1)"

definition chain_base_state :: "chain_env \<Rightarrow> parsed_props \<Rightarrow> chain_state" where
  "chain_base_state env p =
     (let preBlock = preBlock_of p;
          st0 = \<lparr>currentTotalEther = getTotalPooledEther env preBlock,
                 currentTotalShares = getTotalShares env preBlock,
                 acc_totalRewards = 0, cur_shareRate = 0,
                 prevSharesBalance = sharesOf env (p_address p) preBlock\<rparr>
      in st0\<lparr>cur_shareRate := getCurrentShareRate st0\<rparr>)"

text \<open>The fold over the merged events, before any filter.\<close>

definition chain_fold :: "chain_env \<Rightarrow> parsed_props \<Rightarrow> chain_event reward list \<times> chain_state" where
  "chain_fold env p =
     chain_map (p_address p) (contractAddressWithdrawalQueue env)
       (chain_base_state env p) (chain_events env p)"

definition chain_filters :: "parsed_props \<Rightarrow> 'e reward list \<Rightarrow> 'e reward list" where
  "chain_filters p rs =
     (let rs1 = (if \<not> p_includeOnlyRebases p then filter is_rebase rs else rs)
      in if \<not> p_includeZeroRebases p then filter not_zero_rebase rs1 else rs1)"

text \<open>The ledger that is returned when no check has stopped the call.\<close>

definition chain_ledger :: "chain_env \<Rightarrow> parsed_props \<Rightarrow> chain_event rewards_result" where
  "chain_ledger env p =
     (let st0 = chain_base_state env p;
          (rs, st) = chain_fold env p
      in \<lparr>rewards = chain_filters p rs,
          baseBalanceShares = prevSharesBalance st0,
          baseShareRate = cur_shareRate st0,
          baseBalance = getCurrentStethFromShares st0 (prevSharesBalance st0),
          totalRewards = acc_totalRewards st,
          fromBlock = p_fromBlock p,
          toBlock = p_toBlock p\<rparr>)"

text \<open>
  After the options are parsed the source compares \<open>fromBlock\<close> with the lower bound and,
  when it is below, calls \<open>this.core.error(...)\<close> as a statement: the error that is
  built is neither thrown nor returned, and the call goes on to read the base state and
  the events and to return the ledger.
\<close>

definition getRewardsFromChain ::
  "chain_env \<Rightarrow> rewards_props \<Rightarrow> error + chain_event rewards_result" where
  "getRewardsFromChain env props =
     (case parseProps (core env) props of
        Inl e \<Rightarrow> Inl e
      | Inr p \<Rightarrow>
          (let lowerBound = earliestRebaseEventBlock env;
               discarded = (if p_fromBlock p < lowerBound
                            then Some (core_error NOT_SUPPORTED) else None)
           in Inr (chain_ledger env p)))"

section \<open>The subgraph path: getRewardsFromSubgraph\<close>

text \<open>
  The collaborators of the subgraph path.  \<open>addressEqual\<close> of
  \<open>common/utils/address-equal.js\<close> is not among the sources and is taken as it comes;
  \<open>getTransfers\<close> and \<open>getTotalRewards\<close> take the two block bounds and the step,
  \<open>getInitialData\<close> answers the last transfer and the last rebase before a block,
  either of which can be absent.
\<close>

record subgraph_env =
  sg_core :: core_env
  sg_contractAddressWithdrawalQueue :: address
  addressEqual :: "address \<Rightarrow> address \<Rightarrow> bool"
  getLastIndexedBlock :: int
  getTransfers :: "address \<Rightarrow> int \<Rightarrow> int \<Rightarrow> int \<Rightarrow> transfer_entity list"
  getTotalRewards :: "int \<Rightarrow> int \<Rightarrow> int \<Rightarrow> total_reward_entity list"
  getInitialData :: "address \<Rightarrow> int \<Rightarrow> transfer_entity option \<times> total_reward_entity option"

record subgraph_state =
  prevBalanceShares :: int
  prevBalance :: int
  sg_totalRewards :: int

definition subgraph_step ::
  "(address \<Rightarrow> address \<Rightarrow> bool) \<Rightarrow> address \<Rightarrow> address \<Rightarrow> subgraph_state \<Rightarrow> subgraph_event
     \<Rightarrow> subgraph_event reward \<times> subgraph_state" where
  "subgraph_step aeq addr withdrawalQueueAddress st event =
     (case event of
        TransferEvent t \<Rightarrow>
          (let (type, chShares, balShares, chg, bal) =
                 (if aeq (te_to t) addr
                  then (if te_from t = zeroAddress then Submit else TransferIn,
                        te_shares t, te_sharesAfterIncrease t,
                        te_value t, te_balanceAfterIncrease t)
                  else (if aeq (te_to t) withdrawalQueueAddress then Withdrawal else TransferOut,
                        - te_shares t, te_sharesAfterDecrease t,
                        - te_value t, te_balanceAfterDecrease t));
               rate = calcShareRate (te_totalPooledEther t) (te_totalShares t) PRECISION
           in (\<lparr>rtype = type, balanceShares = balShares, changeShares = chShares,
                 change = chg, balance = bal, shareRate = rate, originalEvent = event\<rparr>,
               st\<lparr>prevBalance := bal, prevBalanceShares := balShares\<rparr>))
      | TotalReward r \<Rightarrow>
          (let totalEther = tr_totalPooledEtherAfter r;
               totalShares = tr_totalSharesAfter r;
               newBalance = sharesToSteth (prevBalanceShares st) totalEther totalShares PRECISION;
               chg = newBalance - prevBalance st
           in (\<lparr>rtype = Rebase, balanceShares = prevBalanceShares st, changeShares = 0,
                 change = chg, balance = newBalance,
                 shareRate = calcShareRate totalEther totalShares PRECISION,
                 originalEvent = event\<rparr>,
               st\<lparr>sg_totalRewards := sg_totalRewards st + chg, prevBalance := newBalance\<rparr>)))"

fun subgraph_map ::
  "(address \<Rightarrow> address \<Rightarrow> bool) \<Rightarrow> address \<Rightarrow> address \<Rightarrow> subgraph_state \<Rightarrow> subgraph_event list
     \<Rightarrow> subgraph_event reward list \<times> subgraph_state" where
  "subgraph_map aeq addr wq st [] = ([], st)"
| "subgraph_map aeq addr wq st (e # es) =
     (let (r, st') = subgraph_step aeq addr wq st e;
          (rs, st'') = subgraph_map aeq addr wq st' es
      in (r # rs, st''))"

definition cappedToBlock :: "subgraph_env \<Rightarrow> parsed_props \<Rightarrow> int" where
  "cappedToBlock env p =
     (if getLastIndexedBlock env < p_toBlock p then getLastIndexedBlock env else p_toBlock p)"

definition subgraph_events :: "subgraph_env \<Rightarrow> parsed_props \<Rightarrow> subgraph_event list" where
  "subgraph_events env p =
     (let transfers =
            getTransfers env (p_address p) (p_fromBlock p) (cappedToBlock env p) (p_step p);
          rebases = getTotalRewards env (p_fromBlock p) (cappedToBlock env p) (p_step p)
      in sort_by compare_subgraph (map TotalReward rebases @ map TransferEvent transfers))"

text \<open>
  The running values before the first event, from the last transfer and the last rebase
  before the range, and the base share rate next to them.
\<close>

definition subgraph_base :: "subgraph_env \<Rightarrow> parsed_props \<Rightarrow> subgraph_state \<times> int" where
  "subgraph_base env p =
     (let preBlock = preBlock_of p;
          (initialTransfer, initialRebase) = getInitialData env (p_address p) preBlock;
          st0 = \<lparr>prevBalanceShares = 0, prevBalance = 0, sg_totalRewards = 0\<rparr>;
          st1 = (case initialTransfer of
                   None \<Rightarrow> st0
                 | Some t \<Rightarrow>
                     if addressEqual env (te_to t) (p_address p)
                     then st0\<lparr>prevBalanceShares := te_sharesAfterIncrease t,
                              prevBalance := te_balanceAfterIncrease t\<rparr>
                     else if addressEqual env (te_from t) (p_address p)
                     then st0\<lparr>prevBalanceShares := te_sharesAfterDecrease t,
                              prevBalance := te_balanceAfterDecrease t\<rparr>
                     else st0)
      in (case initialRebase of
            None \<Rightarrow> (st1, 0)
          | Some r \<Rightarrow>
              (let totalEther = tr_totalPooledEtherAfter r;
                   totalShares = tr_totalSharesAfter r
               in (st1\<lparr>prevBalance :=
                         sharesToSteth (prevBalanceShares st1) totalEther totalShares PRECISION\<rparr>,
                   calcShareRate totalEther totalShares PRECISION))))"

definition subgraph_fold ::
  "subgraph_env \<Rightarrow> parsed_props \<Rightarrow> subgraph_event reward list \<times> subgraph_state" where
  "subgraph_fold env p =
     subgraph_map (addressEqual env) (p_address p) (sg_contractAddressWithdrawalQueue env)
       (fst (subgraph_base env p)) (subgraph_events env p)"

definition subgraph_filters :: "parsed_props \<Rightarrow> 'e reward list \<Rightarrow> 'e reward list" where
  "subgraph_filters p rs =
     (let rs1 = (if \<not> p_includeZeroRebases p then filter not_zero_rebase rs else rs)
      in if \<not> p_includeOnlyRebases p then filter is_rebase rs1 else rs1)"

definition subgraph_ledger ::
  "subgraph_env \<Rightarrow> parsed_props \<Rightarrow> subgraph_event subgraph_result" where
  "subgraph_ledger env p =
     (let (st0, baseRate) = subgraph_base env p;
          (rs, st) = subgraph_fold env p
      in \<lparr>rewards = subgraph_filters p rs,
          baseBalanceShares = prevBalanceShares st0,
          baseShareRate = baseRate,
          baseBalance = prevBalance st0,
          totalRewards = sg_totalRewards st,
          fromBlock = p_fromBlock p,
          toBlock = cappedToBlock env p,
          lastIndexedBlock = getLastIndexedBlock env\<rparr>)"

definition getRewardsFromSubgraph ::
  "subgraph_env \<Rightarrow> rewards_props \<Rightarrow> error + subgraph_event subgraph_result" where
  "getRewardsFromSubgraph env props =
     (case parseProps (sg_core env) props of
        Inl e \<Rightarrow> Inl e
      | Inr p \<Rightarrow> Inr (subgraph_ledger env p))"

section \<open>Notions used by the properties\<close>

text \<open>The parts of \<open>parseProps\<close>: the two resolved bounds and the three defaults.\<close>

definition resolve_to :: "core_env \<Rightarrow> rewards_props \<Rightarrow> error + int" where
  "resolve_to env props =
     toBlockNumber env (case to_arg props of Some a \<Rightarrow> a | None \<Rightarrow> default_to)"

definition resolve_from :: "core_env \<Rightarrow> rewards_props \<Rightarrow> int \<Rightarrow> error + int" where
  "resolve_from env props toB =
     (case from_arg props of
        Some a \<Rightarrow> toBlockNumber env a
      | None \<Rightarrow> (case back_spec props of
                   None \<Rightarrow> Inl JSTypeError
                 | Some b \<Rightarrow> toBackBlock env b toB))"

definition step_of :: "rewards_props \<Rightarrow> int" where
  "step_of props = (case step props of Some s \<Rightarrow> s | None \<Rightarrow> DEFAULT_STEP)"

definition zero_of :: "rewards_props \<Rightarrow> bool" where
  "zero_of props = (case includeZeroRebases props of Some b \<Rightarrow> b | None \<Rightarrow> False)"

definition only_of :: "rewards_props \<Rightarrow> bool" where
  "only_of props = (case includeOnlyRebases props of Some b \<Rightarrow> b | None \<Rightarrow> False)"

text \<open>
  The merged and folded sequence of a query before any filter (empty when the range
  does not resolve).
\<close>

definition chain_unfiltered :: "chain_env \<Rightarrow> rewards_props \<Rightarrow> chain_event reward list" where
  "chain_unfiltered env props =
     (case parseProps (core env) props of Inl e \<Rightarrow> [] | Inr p \<Rightarrow> fst (chain_fold env p))"

definition subgraph_unfiltered ::
  "subgraph_env \<Rightarrow> rewards_props \<Rightarrow> subgraph_event reward list" where
  "subgraph_unfiltered env props =
     (case parseProps (sg_core env) props of Inl e \<Rightarrow> [] | Inr p \<Rightarrow> fst (subgraph_fold env p))"

definition rebase_sum :: "'e reward list \<Rightarrow> int" where
  "rebase_sum rs = sum_list (map change (filter is_rebase rs))"

text \<open>The order of the key \<open>(blockNumber, logIndex)\<close>.\<close>

definition chain_key_le :: "chain_event \<Rightarrow> chain_event \<Rightarrow> bool" where
  "chain_key_le e1 e2 =
     (blockNumber e1 < blockNumber e2 \<or>
      (blockNumber e1 = blockNumber e2 \<and> logIndex e1 \<le> logIndex e2))"

definition subgraph_key_le :: "subgraph_event \<Rightarrow> subgraph_event \<Rightarrow> bool" where
  "subgraph_key_le e1 e2 =
     (sg_block e1 < sg_block e2 \<or>
      (sg_block e1 = sg_block e2 \<and> sg_logIndex e1 \<le> sg_logIndex e2))"

section \<open>A worked scenario\<close>

text \<open>
  The account receives 100 freshly minted shares at block 10; the pool holds 1000 ether
  for 10000 shares and is rebased to 1100 ether at block 20, and rebased again with
  the same totals at block 25.
\<close>

definition demo_account :: address where
  "demo_account = ''0x00000000000000000000000000000000000000a1''"

definition demo_queue :: address where
  "demo_queue = ''0x00000000000000000000000000000000000000f2''"

definition demo_core :: core_env where
  "demo_core = \<lparr>getBlock = (\<lambda>tg. if tg = Some Pending then None
                                 else if tg = Some Earliest then Some 0 else Some 40),
                 getLatestBlockToTimestamp = (\<lambda>t. t div 12),
                 date_now = 1700000000000\<rparr>"

definition demo_submit :: chain_event where
  "demo_submit = \<lparr>blockNumber = 10, logIndex = 2,
                   args = TransferShares zeroAddress demo_account 100\<rparr>"

definition demo_rebase :: chain_event where
  "demo_rebase = \<lparr>blockNumber = 20, logIndex = 0, args = TokenRebased 1100 10000\<rparr>"

definition demo_rebase2 :: chain_event where
  "demo_rebase2 = \<lparr>blockNumber = 25, logIndex = 0, args = TokenRebased 1100 10000\<rparr>"

definition in_range :: "int \<Rightarrow> int \<Rightarrow> chain_event \<Rightarrow> bool" where
  "in_range lo hi e = (lo \<le> blockNumber e \<and> blockNumber e \<le> hi)"

definition demo_chain :: chain_env where
  "demo_chain =
     \<lparr>core = demo_core, earliestRebaseEventBlock = 5,
      contractAddressWithdrawalQueue = demo_queue,
      sharesOf = (\<lambda>a b. 0),
      getTotalPooledEther = (\<lambda>b. 1000),
      getTotalShares = (\<lambda>b. 10000),
      transferSharesFrom = (\<lambda>a s lo hi. []),
      transferSharesTo = (\<lambda>a s lo hi. filter (in_range lo hi) [demo_submit]),
      tokenRebased = (\<lambda>s lo hi. filter (in_range lo hi) [demo_rebase, demo_rebase2])\<rparr>"

definition block_n :: "int \<Rightarrow> block_arg" where
  "block_n n = \<lparr>ba_timestamp = None, ba_block = Some (BlockNumber n)\<rparr>"

definition demo_props :: rewards_props where
  "demo_props =
     \<lparr>address = demo_account, to_arg = Some (block_n 30), from_arg = Some (block_n 5),
      back_spec = None, step = None,
      includeZeroRebases = None, includeOnlyRebases = Some True\<rparr>"

definition demo_submit_record :: "chain_event reward" where
  "demo_submit_record =
     \<lparr>rtype = Submit, balanceShares = 100, changeShares = 100, change = 10, balance = 10,
      shareRate = 100000000000000000000000000, originalEvent = demo_submit\<rparr>"

definition demo_rebase_record :: "chain_event reward" where
  "demo_rebase_record =
     \<lparr>rtype = Rebase, balanceShares = 100, changeShares = 0, change = 1, balance = 11,
      shareRate = 110000000000000000000000000, originalEvent = demo_rebase\<rparr>"

definition demo_result :: "chain_event rewards_result" where
  "demo_result =
     \<lparr>rewards = [demo_submit_record, demo_rebase_record],
      baseBalanceShares = 0, baseShareRate = 100000000000000000000000000,
      baseBalance = 0, totalRewards = 1, fromBlock = 5, toBlock = 30\<rparr>"

text \<open>The same history as the subgraph has it, indexed up to block 28.\<close>

definition demo_transfer :: transfer_entity where
  "demo_transfer =
     \<lparr>te_from = zeroAddress, te_to = demo_account, te_shares = 100,
      te_sharesAfterIncrease = 100, te_value = 10, te_balanceAfterDecrease = 0,
      te_balanceAfterIncrease = 10, te_sharesAfterDecrease = 0,
      te_totalPooledEther = 1000, te_totalShares = 10000, te_block = 10, te_logIndex = 2\<rparr>"

definition demo_reward0 :: total_reward_entity where
  "demo_reward0 = \<lparr>tr_totalPooledEtherAfter = 1000, tr_totalSharesAfter = 10000,
                    tr_block = 3, tr_logIndex = 0\<rparr>"

definition demo_reward1 :: total_reward_entity where
  "demo_reward1 = \<lparr>tr_totalPooledEtherAfter = 1100, tr_totalSharesAfter = 10000,
                    tr_block = 20, tr_logIndex = 0\<rparr>"

definition demo_reward2 :: total_reward_entity where
  "demo_reward2 = \<lparr>tr_totalPooledEtherAfter = 1100, tr_totalSharesAfter = 10000,
                    tr_block = 25, tr_logIndex = 0\<rparr>"

definition demo_subgraph :: subgraph_env where
  "demo_subgraph =
     \<lparr>sg_core = demo_core, sg_contractAddressWithdrawalQueue = demo_queue,
      addressEqual = (\<lambda>a b. a = b),
      getLastIndexedBlock = 28,
      getTransfers = (\<lambda>a lo hi s. filter (\<lambda>t. lo \<le> te_block t \<and> te_block t \<le> hi) [demo_transfer]),
      getTotalRewards =
        (\<lambda>lo hi s. filter (\<lambda>r. lo \<le> tr_block r \<and> tr_block r \<le> hi) [demo_reward1, demo_reward2]),
      getInitialData = (\<lambda>a b. (None, Some demo_reward0))\<rparr>"

definition demo_transfer_record :: "subgraph_event reward" where
  "demo_transfer_record =
     \<lparr>rtype = Submit, balanceShares = 100, changeShares = 100, change = 10, balance = 10,
      shareRate = 100000000000000000000000000,
      originalEvent = TransferEvent demo_transfer\<rparr>"

definition demo_reward_record :: "subgraph_event reward" where
  "demo_reward_record =
     \<lparr>rtype = Rebase, balanceShares = 100, changeShares = 0, change = 1, balance = 11,
      shareRate = 110000000000000000000000000,
      originalEvent = TotalReward demo_reward1\<rparr>"

definition demo_subgraph_result :: "subgraph_event subgraph_result" where
  "demo_subgraph_result =
     \<lparr>rewards = [demo_transfer_record, demo_reward_record],
      baseBalanceShares = 0, baseShareRate = 100000000000000000000000000,
      baseBalance = 0, totalRewards = 1, fromBlock = 5, toBlock = 28,
      lastIndexedBlock = 28\<rparr>"

definition demo_props_default :: rewards_props where
  "demo_props_default = demo_props\<lparr>includeOnlyRebases := None\<rparr>"

definition demo_result_default :: "chain_event rewards_result" where
  "demo_result_default = demo_result\<lparr>rewards := [demo_rebase_record]\<rparr>"

definition demo_subgraph_result_default :: "subgraph_event subgraph_result" where
  "demo_subgraph_result_default = demo_subgraph_result\<lparr>rewards := [demo_reward_record]\<rparr>"

section \<open>Running share balance\<close>

text \<open>
  A sequence of records continues the share balance \<open>b\<close>: the first record's
  \<open>balanceShares\<close> is \<open>b\<close> plus its \<open>changeShares\<close>, and each record after it continues
  the \<open>balanceShares\<close> of the record before.
\<close>

fun shares_chain :: "int \<Rightarrow> 'e reward list \<Rightarrow> bool" where
  "shares_chain b [] = True"
| "shares_chain b (r # rs) =
     (balanceShares r = b + changeShares r \<and> shares_chain (balanceShares r) rs)"

text \<open>
  The same for the rebase records alone: a rebase record moves no shares and repeats
  the share balance before it.
\<close>

fun rebase_keeps :: "int \<Rightarrow> 'e reward list \<Rightarrow> bool" where
  "rebase_keeps b [] = True"
| "rebase_keeps b (r # rs) =
     ((if rtype r = Rebase then changeShares r = 0 \<and> balanceShares r = b else True)
      \<and> rebase_keeps (balanceShares r) rs)"

text \<open>
  Every record made from a transfer to the account is an incoming one and adds the
  transferred shares to the share balance before it.
\<close>

fun incoming_added :: "address \<Rightarrow> int \<Rightarrow> chain_event reward list \<Rightarrow> bool" where
  "incoming_added addr b [] = True"
| "incoming_added addr b (r # rs) =
     ((case args (originalEvent r) of
         TransferShares from to v \<Rightarrow>
           (if to = addr
            then rtype r = (if from = zeroAddress then Submit else TransferIn)
                 \<and> changeShares r = v \<and> balanceShares r = b + v
            else True)
       | TokenRebased e s \<Rightarrow> True)
      \<and> incoming_added addr (balanceShares r) rs)"

section \<open>A second scenario: a transfer of the account to itself\<close>

text \<open>
  The account holds 50 shares and sends 7 of them to itself at block 12.  The log has
  the account as sender and as recipient, so both transfer readers answer it.
\<close>

definition self_transfer :: chain_event where
  "self_transfer = \<lparr>blockNumber = 12, logIndex = 4,
                     args = TransferShares demo_account demo_account 7\<rparr>"

definition self_chain :: chain_env where
  "self_chain =
     demo_chain\<lparr>sharesOf := (\<lambda>a b. 50),
                transferSharesFrom := (\<lambda>a s lo hi. filter (in_range lo hi) [self_transfer]),
                transferSharesTo := (\<lambda>a s lo hi. filter (in_range lo hi) [self_transfer]),
                tokenRebased := (\<lambda>s lo hi. [])\<rparr>"

definition self_record :: "int \<Rightarrow> chain_event reward" where
  "self_record b =
     \<lparr>rtype = TransferIn, balanceShares = b, changeShares = 7, change = 0,
      balance = b div 10, shareRate = 100000000000000000000000000,
      originalEvent = self_transfer\<rparr>"

definition self_result :: "chain_event rewards_result" where
  "self_result =
     \<lparr>rewards = [self_record 57, self_record 64],
      baseBalanceShares = 50, baseShareRate = 100000000000000000000000000,
      baseBalance = 5, totalRewards = 0, fromBlock = 5, toBlock = 30\<rparr>"

definition demo_props_early :: rewards_props where
  "demo_props_early = demo_props\<lparr>from_arg := Some (block_n 4)\<rparr>"

definition demo_state :: chain_state where
  "demo_state = \<lparr>currentTotalEther = 1000, currentTotalShares = 10000,
                  acc_totalRewards = 0, cur_shareRate = 0, prevSharesBalance = 50\<rparr>"

section \<open>The share fields of the transfer entities\<close>

text \<open>
  On the subgraph path a record made from a transfer entity takes its share change and
  its share balance from the entity: \<open>shares\<close> and \<open>sharesAfterIncrease\<close> when the
  transfer arrives at the account, \<open>- shares\<close> and \<open>sharesAfterDecrease\<close> otherwise.
\<close>

definition entity_fields_copied ::
  "(address \<Rightarrow> address \<Rightarrow> bool) \<Rightarrow> address \<Rightarrow> subgraph_event reward list \<Rightarrow> bool" where
  "entity_fields_copied aeq addr rs =
     list_all (\<lambda>r. case originalEvent r of
                      TransferEvent t \<Rightarrow>
                        (if aeq (te_to t) addr
                         then changeShares r = te_shares t
                              \<and> balanceShares r = te_sharesAfterIncrease t
                         else changeShares r = - te_shares t
                              \<and> balanceShares r = te_sharesAfterDecrease t)
                    | TotalReward x \<Rightarrow> True) rs"

text \<open>
  The entities of a sequence of events continue the share balance \<open>b\<close>: the field each
  transfer entity is read for is the balance before it plus, or minus, its shares.
\<close>

fun entities_continue ::
  "(address \<Rightarrow> address \<Rightarrow> bool) \<Rightarrow> address \<Rightarrow> int \<Rightarrow> subgraph_event list \<Rightarrow> bool" where
  "entities_continue aeq addr b [] = True"
| "entities_continue aeq addr b (TransferEvent t # es) =
     (if aeq (te_to t) addr
      then te_sharesAfterIncrease t = b + te_shares t
           \<and> entities_continue aeq addr (te_sharesAfterIncrease t) es
      else te_sharesAfterDecrease t = b - te_shares t
           \<and> entities_continue aeq addr (te_sharesAfterDecrease t) es)"
| "entities_continue aeq addr b (TotalReward r # es) = entities_continue aeq addr b es"

text \<open>
  The transfer of the account to itself as the subgraph has it: 7 of 50 shares leave
  and arrive, so the balance after the increase is the balance before the transfer.
\<close>

definition prior_entity :: transfer_entity where
  "prior_entity =
     \<lparr>te_from = zeroAddress, te_to = demo_account, te_shares = 50,
      te_sharesAfterIncrease = 50, te_value = 5, te_balanceAfterDecrease = 0,
      te_balanceAfterIncrease = 5, te_sharesAfterDecrease = 0,
      te_totalPooledEther = 1000, te_totalShares = 10000, te_block = 2, te_logIndex = 1\<rparr>"

definition self_entity :: transfer_entity where
  "self_entity =
     \<lparr>te_from = demo_account, te_to = demo_account, te_shares = 7,
      te_sharesAfterIncrease = 50, te_value = 0, te_balanceAfterDecrease = 4,
      te_balanceAfterIncrease = 5, te_sharesAfterDecrease = 43,
      te_totalPooledEther = 1000, te_totalShares = 10000, te_block = 12, te_logIndex = 4\<rparr>"

definition self_subgraph :: subgraph_env where
  "self_subgraph =
     demo_subgraph\<lparr>getTransfers :=
                      (\<lambda>a lo hi s. filter (\<lambda>t. lo \<le> te_block t \<and> te_block t \<le> hi) [self_entity]),
                    getTotalRewards := (\<lambda>lo hi s. []),
                    getInitialData := (\<lambda>a b. (Some prior_entity, Some demo_reward0))\<rparr>"

definition self_entity_record :: "subgraph_event reward" where
  "self_entity_record =
     \<lparr>rtype = TransferIn, balanceShares = 50, changeShares = 7, change = 0, balance = 5,
      shareRate = 100000000000000000000000000, originalEvent = TransferEvent self_entity\<rparr>"

definition self_subgraph_result :: "subgraph_event subgraph_result" where
  "self_subgraph_result =
     \<lparr>rewards = [self_entity_record],
      baseBalanceShares = 50, baseShareRate = 100000000000000000000000000,
      baseBalance = 5, totalRewards = 0, fromBlock = 5, toBlock = 28,
      lastIndexedBlock = 28\<rparr>"

section \<open>A query that starts before the first rebase event\<close>

definition early_parsed :: parsed_props where
  "early_parsed = \<lparr>p_address = demo_account, p_fromBlock = 4, p_toBlock = 30, p_step = 1000,
                    p_includeZeroRebases = False, p_includeOnlyRebases = True\<rparr>"

definition early_result :: "chain_event rewards_result" where
  "early_result = demo_result\<lparr>fromBlock := 4\<rparr>"

section \<open>An account written in two ways\<close>

text \<open>
  The same account in lower case, as a caller may pass it, and with the checksum
  capitals in which a decoded event log carries it.
\<close>

definition lower_account :: address where
  "lower_account = ''0x52908400098527886e0f7030069857d2e4169ee7''"

definition mixed_account :: address where
  "mixed_account = ''0x52908400098527886E0F7030069857D2E4169EE7''"

text \<open>
  \<open>addressEqual\<close> is not among the sources.  For this scenario it is the comparison
  of the two strings with capitals read as small letters, which is what two writings
  of one address have in common.
\<close>

definition lower_char :: "char \<Rightarrow> char" where
  "lower_char c =
     (let n = (of_char c :: nat) in if 65 \<le> n \<and> n \<le> 90 then char_of (n + 32) else c)"

definition equal_ignoring_case :: "address \<Rightarrow> address \<Rightarrow> bool" where
  "equal_ignoring_case a b = (map lower_char a = map lower_char b)"

definition case_mint :: chain_event where
  "case_mint = \<lparr>blockNumber = 10, logIndex = 2,
                 args = TransferShares zeroAddress mixed_account 100\<rparr>"

definition case_chain :: chain_env where
  "case_chain =
     demo_chain\<lparr>transferSharesTo := (\<lambda>a s lo hi. filter (in_range lo hi) [case_mint]),
                tokenRebased := (\<lambda>s lo hi. [])\<rparr>"

definition case_props :: rewards_props where
  "case_props = demo_props\<lparr>address := lower_account\<rparr>"

definition case_entity :: transfer_entity where
  "case_entity = demo_transfer\<lparr>te_to := mixed_account\<rparr>"

definition case_subgraph :: subgraph_env where
  "case_subgraph =
     demo_subgraph\<lparr>addressEqual := equal_ignoring_case,
                    getTransfers :=
                      (\<lambda>a lo hi s. filter (\<lambda>t. lo \<le> te_block t \<and> te_block t \<le> hi) [case_entity]),
                    getTotalRewards := (\<lambda>lo hi s. [])\<rparr>"

definition case_chain_result :: "chain_event rewards_result" where
  "case_chain_result =
     \<lparr>rewards = [\<lparr>rtype = TransferOut, balanceShares = - 100, changeShares = - 100,
                   change = - 10, balance = - 10,
                   shareRate = 100000000000000000000000000, originalEvent = case_mint\<rparr>],
      baseBalanceShares = 0, baseShareRate = 100000000000000000000000000,
      baseBalance = 0, totalRewards = 0, fromBlock = 5, toBlock = 30\<rparr>"

definition case_subgraph_result :: "subgraph_event subgraph_result" where
  "case_subgraph_result =
     \<lparr>rewards = [\<lparr>rtype = Submit, balanceShares = 100, changeShares = 100,
                   change = 10, balance = 10,
                   shareRate = 100000000000000000000000000,
                   originalEvent = TransferEvent case_entity\<rparr>],
      baseBalanceShares = 0, baseShareRate = 100000000000000000000000000,
      baseBalance = 0, totalRewards = 0, fromBlock = 5, toBlock = 28,
      lastIndexedBlock = 28\<rparr>"

section \<open>A stream of rebases with constant total shares\<close>

text \<open>
  The merged events are rebases only, each leaving the total shares at \<open>T\<close>; their
  total-ether values in order.
\<close>

definition only_rebases :: "int \<Rightarrow> chain_event list \<Rightarrow> bool" where
  "only_rebases T es =
     list_all (\<lambda>e. case args e of
                      TransferShares f t v \<Rightarrow> False
                    | TokenRebased pe ps \<Rightarrow> ps = T) es"

definition only_total_rewards :: "int \<Rightarrow> subgraph_event list \<Rightarrow> bool" where
  "only_total_rewards T es =
     list_all (\<lambda>e. case e of
                      TransferEvent t \<Rightarrow> False
                    | TotalReward r \<Rightarrow> tr_totalSharesAfter r = T) es"

definition chain_ethers :: "chain_env \<Rightarrow> parsed_props \<Rightarrow> int list" where
  "chain_ethers env p = map (\<lambda>e. postTotalEther (args e)) (chain_events env p)"

fun sg_ether :: "subgraph_event \<Rightarrow> int" where
  "sg_ether (TransferEvent t) = te_totalPooledEther t"
| "sg_ether (TotalReward r) = tr_totalPooledEtherAfter r"

definition subgraph_ethers :: "subgraph_env \<Rightarrow> parsed_props \<Rightarrow> int list" where
  "subgraph_ethers env p = map sg_ether (subgraph_events env p)"

text \<open>
  For \<open>s\<close> shares, total shares \<open>T\<close> and total ether going from \<open>E\<close> through the values
  \<open>Es\<close>: the differences of the converted balance from one value to the next, and, in
  the words of the specification, the conversions of the ether differences.
\<close>

fun balance_steps :: "int \<Rightarrow> int \<Rightarrow> int \<Rightarrow> int list \<Rightarrow> int list" where
  "balance_steps s T E [] = []"
| "balance_steps s T E (E' # Es) =
     (sharesToSteth s E' T PRECISION - sharesToSteth s E T PRECISION) # balance_steps s T E' Es"

fun delta_steps :: "int \<Rightarrow> int \<Rightarrow> int \<Rightarrow> int list \<Rightarrow> int list" where
  "delta_steps s T E [] = []"
| "delta_steps s T E (E' # Es) =
     sharesToSteth s (E' - E) T PRECISION # delta_steps s T E' Es"

section \<open>A third scenario: one share out of two\<close>

text \<open>
  The account holds 1 of 2 shares; the pool holds 1 ether and is rebased to 2 ether at
  block 20 and to 5 ether at block 25.
\<close>

definition half_rebase1 :: chain_event where
  "half_rebase1 = \<lparr>blockNumber = 20, logIndex = 0, args = TokenRebased 2 2\<rparr>"

definition half_rebase2 :: chain_event where
  "half_rebase2 = \<lparr>blockNumber = 25, logIndex = 0, args = TokenRebased 5 2\<rparr>"

definition half_chain :: chain_env where
  "half_chain =
     \<lparr>core = demo_core, earliestRebaseEventBlock = 5,
      contractAddressWithdrawalQueue = demo_queue,
      sharesOf = (\<lambda>a b. 1),
      getTotalPooledEther = (\<lambda>b. 1),
      getTotalShares = (\<lambda>b. 2),
      transferSharesFrom = (\<lambda>a s lo hi. []),
      transferSharesTo = (\<lambda>a s lo hi. []),
      tokenRebased = (\<lambda>s lo hi. filter (in_range lo hi) [half_rebase1, half_rebase2])\<rparr>"

definition half_record1 :: "chain_event reward" where
  "half_record1 =
     \<lparr>rtype = Rebase, balanceShares = 1, changeShares = 0, change = 1, balance = 1,
      shareRate = 1000000000000000000000000000, originalEvent = half_rebase1\<rparr>"

definition half_record2 :: "chain_event reward" where
  "half_record2 =
     \<lparr>rtype = Rebase, balanceShares = 1, changeShares = 0, change = 1, balance = 2,
      shareRate = 2500000000000000000000000000, originalEvent = half_rebase2\<rparr>"

definition half_result :: "chain_event rewards_result" where
  "half_result =
     \<lparr>rewards = [half_record1, half_record2],
      baseBalanceShares = 1, baseShareRate = 500000000000000000000000000,
      baseBalance = 0, totalRewards = 2, fromBlock = 5, toBlock = 30\<rparr>"

definition half_reward0 :: total_reward_entity where
  "half_reward0 = \<lparr>tr_totalPooledEtherAfter = 1, tr_totalSharesAfter = 2,
                    tr_block = 3, tr_logIndex = 0\<rparr>"

definition half_reward1 :: total_reward_entity where
  "half_reward1 = \<lparr>tr_totalPooledEtherAfter = 2, tr_totalSharesAfter = 2,
                    tr_block = 20, tr_logIndex = 0\<rparr>"

definition half_reward2 :: total_reward_entity where
  "half_reward2 = \<lparr>tr_totalPooledEtherAfter = 5, tr_totalSharesAfter = 2,
                    tr_block = 25, tr_logIndex = 0\<rparr>"

definition half_transfer0 :: transfer_entity where
  "half_transfer0 =
     \<lparr>te_from = zeroAddress, te_to = demo_account, te_shares = 1,
      te_sharesAfterIncrease = 1, te_value = 0, te_balanceAfterDecrease = 0,
      te_balanceAfterIncrease = 0, te_sharesAfterDecrease = 0,
      te_totalPooledEther = 1, te_totalShares = 2, te_block = 2, te_logIndex = 1\<rparr>"

definition half_subgraph :: subgraph_env where
  "half_subgraph =
     \<lparr>sg_core = demo_core, sg_contractAddressWithdrawalQueue = demo_queue,
      addressEqual = (\<lambda>a b. a = b),
      getLastIndexedBlock = 40,
      getTransfers = (\<lambda>a lo hi s. []),
      getTotalRewards =
        (\<lambda>lo hi s. filter (\<lambda>r. lo \<le> tr_block r \<and> tr_block r \<le> hi) [half_reward1, half_reward2]),
      getInitialData = (\<lambda>a b. (Some half_transfer0, Some half_reward0))\<rparr>"

definition half_parsed :: parsed_props where
  "half_parsed = \<lparr>p_address = demo_account, p_fromBlock = 5, p_toBlock = 30, p_step = 1000,
                   p_includeZeroRebases = False, p_includeOnlyRebases = True\<rparr>"

definition half_subgraph_record1 :: "subgraph_event reward" where
  "half_subgraph_record1 =
     \<lparr>rtype = Rebase, balanceShares = 1, changeShares = 0, change = 1, balance = 1,
      shareRate = 1000000000000000000000000000, originalEvent = TotalReward half_reward1\<rparr>"

definition half_subgraph_record2 :: "subgraph_event reward" where
  "half_subgraph_record2 =
     \<lparr>rtype = Rebase, balanceShares = 1, changeShares = 0, change = 1, balance = 2,
      shareRate = 2500000000000000000000000000, originalEvent = TotalReward half_reward2\<rparr>"

definition half_subgraph_result :: "subgraph_event subgraph_result" where
  "half_subgraph_result =
     \<lparr>rewards = [half_subgraph_record1, half_subgraph_record2],
      baseBalanceShares = 1, baseShareRate = 500000000000000000000000000,
      baseBalance = 0, totalRewards = 2, fromBlock = 5, toBlock = 30,
      lastIndexedBlock = 40\<rparr>"

section \<open>The cases of an argument error in the words of the specification\<close>

text \<open>
  The cases are stated once, for a reading \<open>given\<close> of when a field of the options
  counts as set.  \<open>block_of\<close> is the block an argument stands for (\<open>None\<close> for a
  pending block, which has no number); \<open>back_block\<close> is the block a back specifier
  stands for (\<open>None\<close> when none of its fields is set).
\<close>

definition block_of :: "(int option \<Rightarrow> bool) \<Rightarrow> core_env \<Rightarrow> block_arg \<Rightarrow> int option" where
  "block_of given env arg =
     (if given (ba_timestamp arg)
      then Some (getLatestBlockToTimestamp env (the (ba_timestamp arg)))
      else (case ba_block arg of
              Some (BlockNumber n) \<Rightarrow> Some n
            | Some (BlockTag tg) \<Rightarrow> getBlock env (Some tg)
            | None \<Rightarrow> getBlock env None))"

definition back_block ::
  "(int option \<Rightarrow> bool) \<Rightarrow> core_env \<Rightarrow> back_arg \<Rightarrow> int \<Rightarrow> int option" where
  "back_block given env b start =
     (if given (blocks b) then Some (start - the (blocks b))
      else if given (days b)
      then Some (getLatestBlockToTimestamp env
                   (bigint_div (date_now env - the (days b) * 86400000) 1000))
      else if given (seconds b)
      then Some (getLatestBlockToTimestamp env (date_now env div 1000 - the (seconds b)))
      else None)"

text \<open>
  An argument error is due when: a block tag stands for a pending block; or a back
  specifier is used and none of its fields is set; or its blocks lead below block 0; or
  the resolved \<open>toBlock\<close> is below the resolved \<open>fromBlock\<close>; or the step is not positive.
\<close>

definition range_error_cases ::
  "(int option \<Rightarrow> bool) \<Rightarrow> core_env \<Rightarrow> rewards_props \<Rightarrow> bool" where
  "range_error_cases given env props =
     (case block_of given env (case to_arg props of Some a \<Rightarrow> a | None \<Rightarrow> default_to) of
        None \<Rightarrow> True
      | Some toB \<Rightarrow>
          (case from_arg props of
             Some a \<Rightarrow>
               (case block_of given env a of
                  None \<Rightarrow> True
                | Some fromB \<Rightarrow> toB < fromB \<or> step_of props \<le> 0)
           | None \<Rightarrow>
               (case back_spec props of
                  None \<Rightarrow> False
                | Some b \<Rightarrow>
                    (case back_block given env b toB of
                       None \<Rightarrow> True
                     | Some fromB \<Rightarrow>
                         (given (blocks b) \<and> fromB < 0) \<or> toB < fromB
                         \<or> step_of props \<le> 0))))"

text \<open>The reading of the claim: a field is set when it is present.\<close>

definition present :: "int option \<Rightarrow> bool" where
  "present v = (v \<noteq> None)"

text \<open>
  Two situations are kept apart from the cases above: a block tag that stands for block
  number 0, and the seconds of a back specifier being used at a time that is not a
  whole number of seconds.
\<close>

definition tag_block_zero :: "core_env \<Rightarrow> block_arg \<Rightarrow> bool" where
  "tag_block_zero env arg =
     (\<not> truthy (ba_timestamp arg) \<and>
      (case ba_block arg of
         Some (BlockNumber n) \<Rightarrow> False
       | Some (BlockTag tg) \<Rightarrow> getBlock env (Some tg) = Some 0
       | None \<Rightarrow> getBlock env None = Some 0))"

definition seconds_off_beat :: "core_env \<Rightarrow> back_arg \<Rightarrow> bool" where
  "seconds_off_beat env b =
     (\<not> truthy (blocks b) \<and> \<not> truthy (days b) \<and> truthy (seconds b)
      \<and> date_now env mod 1000 \<noteq> 0)"

definition kept_apart :: "core_env \<Rightarrow> rewards_props \<Rightarrow> bool" where
  "kept_apart env props =
     (tag_block_zero env (case to_arg props of Some a \<Rightarrow> a | None \<Rightarrow> default_to)
      \<or> (case from_arg props of
            Some a \<Rightarrow> tag_block_zero env a
          | None \<Rightarrow> (case back_spec props of
                       None \<Rightarrow> False
                     | Some b \<Rightarrow> seconds_off_beat env b)))"

section \<open>A fourth scenario: zero blocks back\<close>

definition zero_back_props :: rewards_props where
  "zero_back_props =
     \<lparr>address = demo_account, to_arg = Some (block_n 100), from_arg = None,
      back_spec = Some \<lparr>blocks = Some 0, days = None, seconds = None\<rparr>,
      step = None, includeZeroRebases = None, includeOnlyRebases = None\<rparr>"

definition pending_props :: rewards_props where
  "pending_props =
     demo_props\<lparr>to_arg := Some \<lparr>ba_timestamp = None, ba_block = Some (BlockTag Pending)\<rparr>\<rparr>"

definition earliest_props :: rewards_props where
  "earliest_props =
     demo_props\<lparr>from_arg := Some \<lparr>ba_timestamp = None, ba_block = Some (BlockTag Earliest)\<rparr>\<rparr>"

definition off_beat_core :: core_env where
  "off_beat_core = demo_core\<lparr>date_now := 1700000000123\<rparr>"

definition seconds_back_props :: rewards_props where
  "seconds_back_props =
     zero_back_props\<lparr>back_spec := Some \<lparr>blocks = None, days = None, seconds = Some 60\<rparr>\<rparr>"

section \<open>Facts about the resolver\<close>

lemma parseProps_alt:
  "parseProps env props =
     (case resolve_to env props of
        Inl e \<Rightarrow> Inl e
      | Inr toB \<Rightarrow>
          (case resolve_from env props toB of
             Inl e \<Rightarrow> Inl e
           | Inr fromB \<Rightarrow>
               if fromB \<le> toB \<and> 0 < step_of props
               then Inr \<lparr>p_address = address props, p_fromBlock = fromB, p_toBlock = toB,
                         p_step = step_of props, p_includeZeroRebases = zero_of props,
                         p_includeOnlyRebases = only_of props\<rparr>
               else Inl (SDKError INVALID_ARGUMENT)))"
  by (simp add: parseProps_def resolve_to_def resolve_from_def step_of_def zero_of_def
        only_of_def Let_def split: sum.splits)

lemma parseProps_Inr:
  "parseProps env props = Inr p \<longleftrightarrow>
     (\<exists>toB fromB. resolve_to env props = Inr toB \<and> resolve_from env props toB = Inr fromB
        \<and> fromB \<le> toB \<and> 0 < step_of props
        \<and> p = \<lparr>p_address = address props, p_fromBlock = fromB, p_toBlock = toB,
                 p_step = step_of props, p_includeZeroRebases = zero_of props,
                 p_includeOnlyRebases = only_of props\<rparr>)"
  by (auto simp: parseProps_alt split: sum.splits)

lemma parseProps_flags_of:
  "parseProps env props = Inr p \<Longrightarrow>
   p_includeZeroRebases p = zero_of props \<and> p_includeOnlyRebases p = only_of props"
  by (auto simp: parseProps_Inr)

text \<open>Changing the two flags of a query changes the two flags of the parsed options only.\<close>

lemma parseProps_flags:
  "parseProps env props = Inr p \<Longrightarrow>
   parseProps env (props\<lparr>includeZeroRebases := z, includeOnlyRebases := b\<rparr>)
     = Inr (p\<lparr>p_includeZeroRebases := (case z of Some v \<Rightarrow> v | None \<Rightarrow> False),
              p_includeOnlyRebases := (case b of Some v \<Rightarrow> v | None \<Rightarrow> False)\<rparr>)"
  unfolding parseProps_Inr
  by (auto simp: resolve_to_def resolve_from_def step_of_def zero_of_def only_of_def
        cong: option.case_cong)

section \<open>Facts about the two folds\<close>

lemma chain_step_acc:
  "chain_step addr wq st e = (r, st') \<Longrightarrow>
   acc_totalRewards st' = acc_totalRewards st + (if is_rebase r then change r else 0)"
  by (auto simp: chain_step_def is_rebase_def Let_def split: chain_args.splits if_splits)

lemma chain_map_acc:
  "chain_map addr wq st es = (rs, st') \<Longrightarrow>
   acc_totalRewards st' = acc_totalRewards st + rebase_sum rs"
proof (induction es arbitrary: st rs st')
  case Nil
  then show ?case by (simp add: rebase_sum_def)
next
  case (Cons e es)
  obtain r st1 where s: "chain_step addr wq st e = (r, st1)"
    by (cases "chain_step addr wq st e")
  obtain rs1 st2 where m: "chain_map addr wq st1 es = (rs1, st2)"
    by (cases "chain_map addr wq st1 es")
  from Cons.prems s m have eq: "rs = r # rs1" "st' = st2" by auto
  from Cons.IH[OF m] chain_step_acc[OF s] eq show ?case
    by (simp add: rebase_sum_def)
qed

lemma subgraph_step_acc:
  "subgraph_step aeq addr wq st e = (r, st') \<Longrightarrow>
   sg_totalRewards st' = sg_totalRewards st + (if is_rebase r then change r else 0)"
  by (auto simp: subgraph_step_def is_rebase_def Let_def split: subgraph_event.splits if_splits)

lemma subgraph_map_acc:
  "subgraph_map aeq addr wq st es = (rs, st') \<Longrightarrow>
   sg_totalRewards st' = sg_totalRewards st + rebase_sum rs"
proof (induction es arbitrary: st rs st')
  case Nil
  then show ?case by (simp add: rebase_sum_def)
next
  case (Cons e es)
  obtain r st1 where s: "subgraph_step aeq addr wq st e = (r, st1)"
    by (cases "subgraph_step aeq addr wq st e")
  obtain rs1 st2 where m: "subgraph_map aeq addr wq st1 es = (rs1, st2)"
    by (cases "subgraph_map aeq addr wq st1 es")
  from Cons.prems s m have eq: "rs = r # rs1" "st' = st2" by auto
  from Cons.IH[OF m] subgraph_step_acc[OF s] eq show ?case
    by (simp add: rebase_sum_def)
qed

lemma chain_base_acc: "acc_totalRewards (chain_base_state env p) = 0"
  by (simp add: chain_base_state_def Let_def)

lemma subgraph_base_acc: "sg_totalRewards (fst (subgraph_base env p)) = 0"
  by (auto simp: subgraph_base_def Let_def split: prod.splits option.splits)

lemma chain_fold_acc: "acc_totalRewards (snd (chain_fold env p)) = rebase_sum (fst (chain_fold env p))"
  using chain_map_acc[of "p_address p" "contractAddressWithdrawalQueue env"
      "chain_base_state env p" "chain_events env p"
      "fst (chain_fold env p)" "snd (chain_fold env p)"]
  by (simp add: chain_fold_def chain_base_acc)

lemma subgraph_fold_acc:
  "sg_totalRewards (snd (subgraph_fold env p)) = rebase_sum (fst (subgraph_fold env p))"
  using subgraph_map_acc[of "addressEqual env" "p_address p"
      "sg_contractAddressWithdrawalQueue env" "fst (subgraph_base env p)"
      "subgraph_events env p" "fst (subgraph_fold env p)" "snd (subgraph_fold env p)"]
  by (simp add: subgraph_fold_def subgraph_base_acc)

text \<open>The folds read the address and the range of the parsed options, never the two flags.\<close>

lemma chain_fold_flags:
  "chain_fold env (p\<lparr>p_includeZeroRebases := z, p_includeOnlyRebases := b\<rparr>) = chain_fold env p"
  by (simp add: chain_fold_def chain_base_state_def chain_events_def preBlock_of_def)

lemma subgraph_fold_flags:
  "subgraph_fold env (p\<lparr>p_includeZeroRebases := z, p_includeOnlyRebases := b\<rparr>)
     = subgraph_fold env p"
  by (simp add: subgraph_fold_def subgraph_base_def subgraph_events_def cappedToBlock_def
        preBlock_of_def Let_def cong: option.case_cong prod.case_cong if_cong)

section \<open>Facts about the two entry points\<close>

lemma getRewardsFromChain_Inr:
  "getRewardsFromChain env props = Inr res \<longleftrightarrow>
     (\<exists>p. parseProps (core env) props = Inr p \<and> res = chain_ledger env p)"
  by (auto simp: getRewardsFromChain_def Let_def split: sum.splits)

lemma getRewardsFromSubgraph_Inr:
  "getRewardsFromSubgraph env props = Inr res \<longleftrightarrow>
     (\<exists>p. parseProps (sg_core env) props = Inr p \<and> res = subgraph_ledger env p)"
  by (auto simp: getRewardsFromSubgraph_def split: sum.splits)

lemma chain_ledger_total:
  "totalRewards (chain_ledger env p) = acc_totalRewards (snd (chain_fold env p))"
  by (simp add: chain_ledger_def Let_def split_beta)

lemma chain_ledger_rewards:
  "rewards (chain_ledger env p) = chain_filters p (fst (chain_fold env p))"
  by (simp add: chain_ledger_def Let_def split_beta)

lemma chain_ledger_base:
  "baseBalanceShares (chain_ledger env p) = prevSharesBalance (chain_base_state env p)"
  by (simp add: chain_ledger_def Let_def split_beta)

lemma subgraph_ledger_total:
  "totalRewards (subgraph_ledger env p) = sg_totalRewards (snd (subgraph_fold env p))"
  by (simp add: subgraph_ledger_def Let_def split_beta)

lemma subgraph_ledger_rewards:
  "rewards (subgraph_ledger env p) = subgraph_filters p (fst (subgraph_fold env p))"
  by (simp add: subgraph_ledger_def Let_def split_beta)

lemma subgraph_ledger_base:
  "baseBalanceShares (subgraph_ledger env p) = prevBalanceShares (fst (subgraph_base env p))"
  by (simp add: subgraph_ledger_def Let_def split_beta)

lemma subgraph_ledger_toBlock:
  "toBlock (subgraph_ledger env p) = cappedToBlock env p"
  by (simp add: subgraph_ledger_def Let_def split_beta)

lemma chain_unfiltered_flags:
  "chain_unfiltered env (props\<lparr>includeZeroRebases := z, includeOnlyRebases := b\<rparr>)
     = chain_unfiltered env props"
proof (cases "parseProps (core env) props")
  case (Inl e)
  then have "parseProps (core env) (props\<lparr>includeZeroRebases := z, includeOnlyRebases := b\<rparr>) = Inl e"
    by (auto simp: parseProps_alt resolve_to_def resolve_from_def step_of_def
        split: sum.splits if_splits cong: option.case_cong)
  with Inl show ?thesis by (simp add: chain_unfiltered_def)
next
  case (Inr p)
  from parseProps_flags[OF Inr, where z = z and b = b] Inr show ?thesis
    by (simp add: chain_unfiltered_def chain_fold_flags)
qed

section \<open>Evaluation of the worked scenario\<close>

lemma demo_chain_run: "getRewardsFromChain demo_chain demo_props = Inr demo_result"
  by code_simp

lemma demo_subgraph_run:
  "getRewardsFromSubgraph demo_subgraph demo_props = Inr demo_subgraph_result"
  by code_simp

section \<open>Facts about the merge\<close>

lemma set_insert_by: "set (insert_by cmp x xs) = insert x (set xs)"
  by (induction xs) auto

lemma sorted_insert_by:
  assumes le: "\<And>a b. cmp a b \<le> 0 \<Longrightarrow> le a b"
    and tot: "\<And>a b. \<not> cmp a b \<le> 0 \<Longrightarrow> le b a"
    and trans: "\<And>a b c. le a b \<Longrightarrow> le b c \<Longrightarrow> le a c"
    and s: "sorted_wrt le xs"
  shows "sorted_wrt le (insert_by cmp x xs)"
  using s
proof (induction xs)
  case Nil
  then show ?case by simp
next
  case (Cons y ys)
  show ?case
  proof (cases "cmp x y \<le> 0")
    case True
    then have xy: "le x y" by (rule le)
    with Cons.prems have "\<forall>z\<in>set ys. le x z" by (auto intro: trans)
    with True xy Cons.prems show ?thesis by simp
  next
    case False
    then have yx: "le y x" by (rule tot)
    from Cons have "sorted_wrt le (insert_by cmp x ys)" by simp
    with False yx Cons.prems show ?thesis by (simp add: set_insert_by)
  qed
qed

lemma sorted_sort_by:
  assumes le: "\<And>a b. cmp a b \<le> 0 \<Longrightarrow> le a b"
    and tot: "\<And>a b. \<not> cmp a b \<le> 0 \<Longrightarrow> le b a"
    and trans: "\<And>a b c. le a b \<Longrightarrow> le b c \<Longrightarrow> le a c"
  shows "sorted_wrt le (sort_by cmp xs)"
  unfolding sort_by_def
proof (induction xs)
  case Nil
  show ?case by simp
next
  case (Cons x xs)
  from sorted_insert_by[of cmp le, OF le tot trans Cons] show ?case by simp
qed

lemma chain_events_sorted: "sorted_wrt chain_key_le (chain_events env p)"
  unfolding chain_events_def Let_def
proof (rule sorted_sort_by)
  fix a b c :: chain_event
  show "compare_chain a b \<le> 0 \<Longrightarrow> chain_key_le a b"
    by (auto simp: compare_chain_def chain_key_le_def Let_def split: if_splits)
  show "\<not> compare_chain a b \<le> 0 \<Longrightarrow> chain_key_le b a"
    by (auto simp: compare_chain_def chain_key_le_def Let_def split: if_splits)
  show "chain_key_le a b \<Longrightarrow> chain_key_le b c \<Longrightarrow> chain_key_le a c"
    by (auto simp: chain_key_le_def)
qed

lemma subgraph_events_sorted: "sorted_wrt subgraph_key_le (subgraph_events env p)"
  unfolding subgraph_events_def Let_def
proof (rule sorted_sort_by)
  fix a b c :: subgraph_event
  show "compare_subgraph a b \<le> 0 \<Longrightarrow> subgraph_key_le a b"
    by (auto simp: compare_subgraph_def subgraph_key_le_def Let_def split: if_splits)
  show "\<not> compare_subgraph a b \<le> 0 \<Longrightarrow> subgraph_key_le b a"
    by (auto simp: compare_subgraph_def subgraph_key_le_def Let_def split: if_splits)
  show "subgraph_key_le a b \<Longrightarrow> subgraph_key_le b c \<Longrightarrow> subgraph_key_le a c"
    by (auto simp: subgraph_key_le_def)
qed

text \<open>Each record keeps the event it was made from, so the fold keeps the order.\<close>

lemma chain_step_original: "originalEvent (fst (chain_step addr wq st e)) = e"
  by (simp add: chain_step_def Let_def split: chain_args.splits)

lemma chain_map_original: "map originalEvent (fst (chain_map addr wq st es)) = es"
proof (induction es arbitrary: st)
  case Nil
  show ?case by simp
next
  case (Cons e es)
  then show ?case
    using chain_step_original[of addr wq st e]
    by (simp add: split_beta Let_def)
qed

lemma subgraph_step_original: "originalEvent (fst (subgraph_step aeq addr wq st e)) = e"
  by (simp add: subgraph_step_def Let_def split: subgraph_event.splits)

lemma subgraph_map_original: "map originalEvent (fst (subgraph_map aeq addr wq st es)) = es"
proof (induction es arbitrary: st)
  case Nil
  show ?case by simp
next
  case (Cons e es)
  then show ?case
    using subgraph_step_original[of aeq addr wq st e]
    by (simp add: split_beta Let_def)
qed

lemma chain_fold_original: "map originalEvent (fst (chain_fold env p)) = chain_events env p"
  by (simp add: chain_fold_def chain_map_original)

lemma subgraph_fold_original:
  "map originalEvent (fst (subgraph_fold env p)) = subgraph_events env p"
  by (simp add: subgraph_fold_def subgraph_map_original)

section \<open>Facts about the filters\<close>

text \<open>The two filters can be applied in either order.\<close>

lemma filters_commute: "chain_filters p rs = subgraph_filters p rs"
  by (auto simp: chain_filters_def subgraph_filters_def Let_def conj_commute)

lemma filters_sorted:
  "sorted_wrt R rs \<Longrightarrow> sorted_wrt R (subgraph_filters p rs)"
  by (simp add: subgraph_filters_def Let_def sorted_wrt_filter)

lemma filters_shape:
  "subgraph_filters p rs =
     (let kept = (if p_includeZeroRebases p then rs else filter not_zero_rebase rs)
      in if p_includeOnlyRebases p then kept else filter is_rebase kept)"
  by (simp add: subgraph_filters_def Let_def)

lemma list_all_filter_self: "list_all P (filter P xs)"
  by (simp add: list_all_iff)

lemma demo_chain_run_default:
  "getRewardsFromChain demo_chain demo_props_default = Inr demo_result_default"
  by code_simp

lemma demo_subgraph_run_default:
  "getRewardsFromSubgraph demo_subgraph demo_props_default = Inr demo_subgraph_result_default"
  by code_simp

lemma demo_chain_unfiltered:
  "chain_unfiltered demo_chain demo_props =
     [demo_submit_record, demo_rebase_record,
      demo_rebase_record\<lparr>change := 0, originalEvent := demo_rebase2\<rparr>]"
  by code_simp

lemma demo_subgraph_unfiltered:
  "subgraph_unfiltered demo_subgraph demo_props =
     [demo_transfer_record, demo_reward_record,
      demo_reward_record\<lparr>change := 0, originalEvent := TotalReward demo_reward2\<rparr>]"
  by code_simp

section \<open>Facts about the share balance\<close>

lemma chain_step_shares:
  "chain_step addr wq st e = (r, st') \<Longrightarrow>
   balanceShares r = prevSharesBalance st + changeShares r
   \<and> prevSharesBalance st' = balanceShares r
   \<and> (is_rebase r \<longrightarrow> changeShares r = 0)"
  by (auto simp: chain_step_def is_rebase_def Let_def split: chain_args.splits if_splits)

lemma chain_map_shares_chain:
  "shares_chain (prevSharesBalance st) (fst (chain_map addr wq st es))"
proof (induction es arbitrary: st)
  case Nil
  show ?case by simp
next
  case (Cons e es)
  obtain r st1 where s: "chain_step addr wq st e = (r, st1)"
    by (cases "chain_step addr wq st e")
  from chain_step_shares[OF s] Cons[of st1] s show ?case
    by (simp add: split_beta)
qed

lemma chain_map_rebase_no_shares:
  "r \<in> set (fst (chain_map addr wq st es)) \<Longrightarrow> is_rebase r \<Longrightarrow> changeShares r = 0"
proof (induction es arbitrary: st)
  case Nil
  then show ?case by simp
next
  case (Cons e es)
  obtain r1 st1 where s: "chain_step addr wq st e = (r1, st1)"
    by (cases "chain_step addr wq st e")
  from Cons.prems s have "r = r1 \<or> r \<in> set (fst (chain_map addr wq st1 es))"
    by (auto simp: split_beta)
  then show ?case
    using chain_step_shares[OF s] Cons.IH[of st1] Cons.prems(2) by auto
qed

text \<open>Dropping records that move no shares leaves the running balance intact.\<close>

lemma shares_chain_filter:
  "shares_chain b rs \<Longrightarrow> (\<And>r. r \<in> set rs \<Longrightarrow> \<not> P r \<Longrightarrow> changeShares r = 0)
   \<Longrightarrow> shares_chain b (filter P rs)"
proof (induction rs arbitrary: b)
  case Nil
  show ?case by simp
next
  case (Cons r rs)
  from Cons.prems(1)[unfolded shares_chain.simps]
  have 1: "balanceShares r = b + changeShares r"
    and 2: "shares_chain (balanceShares r) rs" by blast+
  have 3: "shares_chain (balanceShares r) (filter P rs)"
    by (rule Cons.IH[OF 2]) (use Cons.prems(2) in auto)
  show ?case
  proof (cases "P r")
    case True
    with 1 3 show ?thesis by simp
  next
    case False
    with Cons.prems(2)[of r] have "changeShares r = 0" by simp
    with 1 have "balanceShares r = b" by simp
    with False 3 show ?thesis by simp
  qed
qed

lemma not_zero_rebase_is_rebase: "\<not> not_zero_rebase r \<Longrightarrow> is_rebase r"
  by (simp add: not_zero_rebase_def is_rebase_def)

lemma subgraph_step_shares:
  "subgraph_step aeq addr wq st e = (r, st') \<Longrightarrow>
   prevBalanceShares st' = balanceShares r
   \<and> (rtype r = Rebase \<longrightarrow> changeShares r = 0 \<and> balanceShares r = prevBalanceShares st)"
  by (auto simp: subgraph_step_def Let_def split: subgraph_event.splits if_splits)

lemma subgraph_map_rebase_keeps:
  "rebase_keeps (prevBalanceShares st) (fst (subgraph_map aeq addr wq st es))"
proof (induction es arbitrary: st)
  case Nil
  show ?case by simp
next
  case (Cons e es)
  obtain r st1 where s: "subgraph_step aeq addr wq st e = (r, st1)"
    by (cases "subgraph_step aeq addr wq st e")
  from subgraph_step_shares[OF s] Cons[of st1] s show ?case
    by (simp add: split_beta)
qed

lemma rebase_keeps_filter:
  "rebase_keeps b rs \<Longrightarrow> (\<And>r. r \<in> set rs \<Longrightarrow> \<not> P r \<Longrightarrow> rtype r = Rebase)
   \<Longrightarrow> rebase_keeps b (filter P rs)"
proof (induction rs arbitrary: b)
  case Nil
  show ?case by simp
next
  case (Cons r rs)
  from Cons.prems(1)[unfolded rebase_keeps.simps]
  have 1: "if rtype r = Rebase then changeShares r = 0 \<and> balanceShares r = b else True"
    and 2: "rebase_keeps (balanceShares r) rs" by blast+
  have 3: "rebase_keeps (balanceShares r) (filter P rs)"
    by (rule Cons.IH[OF 2]) (use Cons.prems(2) in auto)
  show ?case
  proof (cases "P r")
    case True
    with 1 3 show ?thesis by simp
  next
    case False
    with Cons.prems(2)[of r] have "rtype r = Rebase" by simp
    with 1 have "balanceShares r = b" by simp
    with False 3 show ?thesis by simp
  qed
qed

lemma rebase_keeps_no_shares:
  "rebase_keeps b rs \<Longrightarrow> list_all (\<lambda>r. changeShares r = 0) (filter is_rebase rs)"
  by (induction rs arbitrary: b) (auto simp: is_rebase_def)

lemma shares_chain_rebase_keeps:
  "shares_chain b rs \<Longrightarrow> (\<And>r. r \<in> set rs \<Longrightarrow> is_rebase r \<Longrightarrow> changeShares r = 0)
   \<Longrightarrow> rebase_keeps b rs"
  by (induction rs arbitrary: b) (auto simp: is_rebase_def)

lemma list_all_filter_mono:
  "list_all Q (filter R rs) \<Longrightarrow> list_all Q (filter R (filter P rs))"
  by (induction rs) auto

lemma chain_step_incoming:
  "args e = TransferShares from addr v \<Longrightarrow> chain_step addr wq st e = (r, st') \<Longrightarrow>
   rtype r = (if from = zeroAddress then Submit else TransferIn)
   \<and> changeShares r = v
   \<and> balanceShares r = prevSharesBalance st + v
   \<and> prevSharesBalance st' = prevSharesBalance st + v"
  by (auto simp: chain_step_def Let_def)

lemma chain_map_incoming:
  "incoming_added addr (prevSharesBalance st) (fst (chain_map addr wq st es))"
proof (induction es arbitrary: st)
  case Nil
  show ?case by simp
next
  case (Cons e es)
  obtain r st1 where s: "chain_step addr wq st e = (r, st1)"
    by (cases "chain_step addr wq st e")
  have o: "originalEvent r = e"
    using chain_step_original[of addr wq st e] s by simp
  have "case args e of
          TransferShares from to v \<Rightarrow>
            (if to = addr
             then rtype r = (if from = zeroAddress then Submit else TransferIn)
                  \<and> changeShares r = v \<and> balanceShares r = prevSharesBalance st + v
             else True)
        | TokenRebased e s \<Rightarrow> True"
    using chain_step_incoming[OF _ s] by (auto split: chain_args.splits)
  with o chain_step_shares[OF s] Cons[of st1] s show ?case
    by (simp add: split_beta)
qed

lemma self_chain_run: "getRewardsFromChain self_chain demo_props = Inr self_result"
  by code_simp

lemma self_chain_unfiltered:
  "chain_unfiltered self_chain demo_props = [self_record 57, self_record 64]"
  by code_simp

section \<open>Facts about the share fields of the transfer entities\<close>

lemma subgraph_step_entity:
  "subgraph_step aeq addr wq st (TransferEvent t) = (r, st') \<Longrightarrow>
   (if aeq (te_to t) addr
    then changeShares r = te_shares t \<and> balanceShares r = te_sharesAfterIncrease t
    else changeShares r = - te_shares t \<and> balanceShares r = te_sharesAfterDecrease t)
   \<and> prevBalanceShares st' = balanceShares r"
  by (auto simp: subgraph_step_def Let_def split: if_splits)

lemma subgraph_step_total_reward:
  "subgraph_step aeq addr wq st (TotalReward x) = (r, st') \<Longrightarrow>
   changeShares r = 0 \<and> balanceShares r = prevBalanceShares st
   \<and> prevBalanceShares st' = prevBalanceShares st"
  by (auto simp: subgraph_step_def Let_def)

lemma subgraph_map_entity_fields:
  "entity_fields_copied aeq addr (fst (subgraph_map aeq addr wq st es))"
proof (induction es arbitrary: st)
  case Nil
  show ?case by (simp add: entity_fields_copied_def)
next
  case (Cons e es)
  obtain r st1 where s: "subgraph_step aeq addr wq st e = (r, st1)"
    by (cases "subgraph_step aeq addr wq st e")
  have o: "originalEvent r = e"
    using subgraph_step_original[of aeq addr wq st e] s by simp
  have "case e of
          TransferEvent t \<Rightarrow>
            (if aeq (te_to t) addr
             then changeShares r = te_shares t \<and> balanceShares r = te_sharesAfterIncrease t
             else changeShares r = - te_shares t \<and> balanceShares r = te_sharesAfterDecrease t)
        | TotalReward x \<Rightarrow> True"
  proof (cases e)
    case (TransferEvent t)
    with subgraph_step_entity[of aeq addr wq st t r st1] s show ?thesis by simp
  next
    case (TotalReward x)
    then show ?thesis by simp
  qed
  with o Cons[of st1] s show ?case
    by (simp add: split_beta entity_fields_copied_def)
qed

lemma entity_fields_copied_filter:
  "entity_fields_copied aeq addr rs \<Longrightarrow> entity_fields_copied aeq addr (filter P rs)"
  by (simp add: entity_fields_copied_def list_all_iff)

text \<open>
  The folded sequence continues the share balance exactly when the entities it was
  made from do.
\<close>

lemma subgraph_map_shares_chain:
  "shares_chain (prevBalanceShares st) (fst (subgraph_map aeq addr wq st es))
     = entities_continue aeq addr (prevBalanceShares st) es"
proof (induction es arbitrary: st)
  case Nil
  show ?case by simp
next
  case (Cons e es)
  obtain r st1 where s: "subgraph_step aeq addr wq st e = (r, st1)"
    by (cases "subgraph_step aeq addr wq st e")
  show ?case
  proof (cases e)
    case (TransferEvent t)
    note f = subgraph_step_entity[OF s[unfolded TransferEvent]]
    from f have n: "prevBalanceShares st1 = balanceShares r" by blast
    show ?thesis
    proof (cases "aeq (te_to t) addr")
      case True
      with f have "changeShares r = te_shares t" "balanceShares r = te_sharesAfterIncrease t"
        by simp_all
      with Cons[of st1] n s True TransferEvent show ?thesis
        by (simp add: split_beta)
    next
      case False
      with f have "changeShares r = - te_shares t" "balanceShares r = te_sharesAfterDecrease t"
        by simp_all
      with Cons[of st1] n s False TransferEvent show ?thesis
        by (simp add: split_beta)
    qed
  next
    case (TotalReward x)
    note f = subgraph_step_total_reward[OF s[unfolded TotalReward]]
    with Cons[of st1] s TotalReward show ?thesis
      by (simp add: split_beta)
  qed
qed

lemma self_subgraph_run:
  "getRewardsFromSubgraph self_subgraph demo_props = Inr self_subgraph_result"
  by code_simp

lemma early_parse: "parseProps (core demo_chain) demo_props_early = Inr early_parsed"
  by code_simp

lemma early_run: "getRewardsFromChain demo_chain demo_props_early = Inr early_result"
  by code_simp

lemma case_chain_run: "getRewardsFromChain case_chain case_props = Inr case_chain_result"
  by code_simp

lemma case_subgraph_run:
  "getRewardsFromSubgraph case_subgraph case_props = Inr case_subgraph_result"
  by code_simp

text \<open>
  Dropping rebase records from a sequence in which the rebase records move no shares
  neither breaks nor mends the running balance.
\<close>

lemma shares_chain_filter_rebases:
  "rebase_keeps b rs \<Longrightarrow> (\<And>r. r \<in> set rs \<Longrightarrow> \<not> P r \<Longrightarrow> rtype r = Rebase)
   \<Longrightarrow> shares_chain b (filter P rs) = shares_chain b rs"
proof (induction rs arbitrary: b)
  case Nil
  show ?case by simp
next
  case (Cons r rs)
  from Cons.prems(1)[unfolded rebase_keeps.simps]
  have 1: "if rtype r = Rebase then changeShares r = 0 \<and> balanceShares r = b else True"
    and 2: "rebase_keeps (balanceShares r) rs" by blast+
  have 3: "shares_chain (balanceShares r) (filter P rs) = shares_chain (balanceShares r) rs"
    by (rule Cons.IH[OF 2]) (use Cons.prems(2) in auto)
  show ?case
  proof (cases "P r")
    case True
    with 3 show ?thesis by simp
  next
    case False
    with Cons.prems(2)[of r] have "rtype r = Rebase" by simp
    with 1 have "changeShares r = 0" "balanceShares r = b" by simp_all
    with False 3 show ?thesis by simp
  qed
qed

section \<open>Facts about the share-rate arithmetic\<close>

lemma bigint_div_nonneg: "0 \<le> a \<Longrightarrow> 0 < b \<Longrightarrow> bigint_div a b = a div b"
  by (cases "a = 0") (simp_all add: bigint_div_def)

lemma bigint_div_neg: "a < 0 \<Longrightarrow> 0 < b \<Longrightarrow> bigint_div a b = - ((- a) div b)"
  by (simp add: bigint_div_def)

lemma div_bounds:
  fixes x T :: int
  assumes T: "0 < T"
  shows "T * (x div T) \<le> x \<and> x < T * (x div T) + T"
proof -
  have "x = T * (x div T) + x mod T" by simp
  moreover have "0 \<le> x mod T" "x mod T < T" using T by simp_all
  ultimately show ?thesis by linarith
qed

text \<open>The difference of two floors is the floor of the difference, or one more.\<close>

lemma div_diff_floor:
  fixes x y T :: int
  assumes T: "0 < T"
  shows "0 \<le> x div T - y div T - (x - y) div T \<and> x div T - y div T - (x - y) div T \<le> 1"
proof -
  define k where "k = x div T - y div T - (x - y) div T"
  have "T * k = T * (x div T) - T * (y div T) - T * ((x - y) div T)"
    by (simp add: k_def algebra_simps)
  with div_bounds[OF T, of x] div_bounds[OF T, of y] div_bounds[OF T, of "x - y"]
  have lo: "- T < T * k" and hi: "T * k < 2 * T" by linarith+
  have "k < 2"
  proof (rule ccontr)
    assume "\<not> k < 2"
    then have "2 \<le> k" by simp
    with T have "T * 2 \<le> T * k" by (intro mult_left_mono) simp_all
    with hi show False by simp
  qed
  moreover have "- 1 < k"
  proof (rule ccontr)
    assume "\<not> - 1 < k"
    then have "k \<le> - 1" by simp
    with T have "T * k \<le> T * (- 1)" by (intro mult_left_mono) simp_all
    with lo show False by simp
  qed
  ultimately show ?thesis unfolding k_def by linarith
qed

lemma step_bound:
  assumes s: "0 \<le> s" and T: "0 < T" and E: "0 \<le> E" and E': "0 \<le> E'"
  shows "\<bar>(sharesToSteth s E' T PRECISION - sharesToSteth s E T PRECISION)
          - sharesToSteth s (E' - E) T PRECISION\<bar> \<le> 1"
proof -
  let ?x = "s * E'" and ?y = "s * E"
  from s E E' have x: "0 \<le> ?x" and y: "0 \<le> ?y" by simp_all
  have a: "sharesToSteth s E' T PRECISION = ?x div T"
    using T x by (simp add: sharesToSteth_def bigint_div_nonneg)
  have b: "sharesToSteth s E T PRECISION = ?y div T"
    using T y by (simp add: sharesToSteth_def bigint_div_nonneg)
  have d: "s * (E' - E) = ?x - ?y" by (simp add: algebra_simps)
  show ?thesis
  proof (cases "0 \<le> ?x - ?y")
    case True
    then have "sharesToSteth s (E' - E) T PRECISION = (?x - ?y) div T"
      using T d by (simp add: sharesToSteth_def bigint_div_nonneg)
    with a b div_diff_floor[OF T, of ?x ?y] show ?thesis by linarith
  next
    case False
    then have "sharesToSteth s (E' - E) T PRECISION = - ((?y - ?x) div T)"
      using T d by (simp add: sharesToSteth_def bigint_div_neg)
    with a b div_diff_floor[OF T, of ?y ?x] show ?thesis by linarith
  qed
qed

lemma steps_bound:
  "0 \<le> s \<Longrightarrow> 0 < T \<Longrightarrow> list_all (\<lambda>E. 0 \<le> E) (E # Es) \<Longrightarrow>
   list_all2 (\<lambda>c d. \<bar>c - d\<bar> \<le> 1) (balance_steps s T E Es) (delta_steps s T E Es)"
proof (induction Es arbitrary: E)
  case Nil
  show ?case by simp
next
  case (Cons E' Es)
  from Cons.prems have "0 \<le> E" "0 \<le> E'" "list_all (\<lambda>E. 0 \<le> E) (E' # Es)" by simp_all
  with Cons.IH[of E'] Cons.prems(1,2) step_bound[of s T E E'] show ?case by simp
qed

section \<open>Facts about a stream of rebases\<close>

lemma chain_step_rebase:
  "args e = TokenRebased pe T \<Longrightarrow> currentTotalShares st = T \<Longrightarrow>
   chain_step addr wq st e = (r, st') \<Longrightarrow>
   change r = sharesToSteth (prevSharesBalance st) pe T PRECISION
              - sharesToSteth (prevSharesBalance st) (currentTotalEther st) T PRECISION
   \<and> is_rebase r \<and> prevSharesBalance st' = prevSharesBalance st
   \<and> currentTotalEther st' = pe \<and> currentTotalShares st' = T"
  by (auto simp: chain_step_def Let_def getCurrentStethFromShares_def is_rebase_def)

lemma chain_map_only_rebases:
  "only_rebases T es \<Longrightarrow> currentTotalShares st = T \<Longrightarrow>
   map change (fst (chain_map addr wq st es))
     = balance_steps (prevSharesBalance st) T (currentTotalEther st)
         (map (\<lambda>e. postTotalEther (args e)) es)
   \<and> list_all is_rebase (fst (chain_map addr wq st es))"
proof (induction es arbitrary: st)
  case Nil
  show ?case by simp
next
  case (Cons e es)
  from Cons.prems(1) obtain pe where e: "args e = TokenRebased pe T"
    and rest: "only_rebases T es"
    by (auto simp: only_rebases_def split: chain_args.splits)
  obtain r st1 where s: "chain_step addr wq st e = (r, st1)"
    by (cases "chain_step addr wq st e")
  note f = chain_step_rebase[OF e Cons.prems(2) s]
  from f have sh: "currentTotalShares st1 = T" by blast
  from Cons.IH[OF rest sh] f s e show ?case
    by (simp add: split_beta)
qed

lemma subgraph_step_rebase:
  "e = TotalReward x \<Longrightarrow> tr_totalSharesAfter x = T \<Longrightarrow>
   prevBalance st = sharesToSteth (prevBalanceShares st) E T PRECISION \<Longrightarrow>
   subgraph_step aeq addr wq st e = (r, st') \<Longrightarrow>
   change r = sharesToSteth (prevBalanceShares st) (tr_totalPooledEtherAfter x) T PRECISION
              - sharesToSteth (prevBalanceShares st) E T PRECISION
   \<and> is_rebase r \<and> prevBalanceShares st' = prevBalanceShares st
   \<and> prevBalance st'
       = sharesToSteth (prevBalanceShares st') (tr_totalPooledEtherAfter x) T PRECISION"
  by (auto simp: subgraph_step_def Let_def is_rebase_def)

lemma subgraph_map_only_rebases:
  "only_total_rewards T es \<Longrightarrow>
   prevBalance st = sharesToSteth (prevBalanceShares st) E T PRECISION \<Longrightarrow>
   map change (fst (subgraph_map aeq addr wq st es))
     = balance_steps (prevBalanceShares st) T E (map sg_ether es)
   \<and> list_all is_rebase (fst (subgraph_map aeq addr wq st es))"
proof (induction es arbitrary: st E)
  case Nil
  show ?case by simp
next
  case (Cons e es)
  from Cons.prems(1) obtain x where e: "e = TotalReward x"
    and x: "tr_totalSharesAfter x = T" and rest: "only_total_rewards T es"
    by (auto simp: only_total_rewards_def split: subgraph_event.splits)
  obtain r st1 where s: "subgraph_step aeq addr wq st e = (r, st1)"
    by (cases "subgraph_step aeq addr wq st e")
  note f = subgraph_step_rebase[OF e x Cons.prems(2) s]
  from f have b: "prevBalance st1
       = sharesToSteth (prevBalanceShares st1) (tr_totalPooledEtherAfter x) T PRECISION"
    by blast
  from Cons.IH[OF rest b] f s e show ?case
    by (simp add: split_beta)
qed

lemma rebase_sum_all: "list_all is_rebase rs \<Longrightarrow> rebase_sum rs = sum_list (map change rs)"
  by (induction rs) (simp_all add: rebase_sum_def)

lemma chain_base_fields:
  "currentTotalShares (chain_base_state env p) = getTotalShares env (preBlock_of p)
   \<and> currentTotalEther (chain_base_state env p) = getTotalPooledEther env (preBlock_of p)"
  by (simp add: chain_base_state_def Let_def)

lemma subgraph_base_rebase:
  "snd (getInitialData env (p_address p) (preBlock_of p)) = Some r0 \<Longrightarrow>
   prevBalance (fst (subgraph_base env p))
     = sharesToSteth (prevBalanceShares (fst (subgraph_base env p)))
         (tr_totalPooledEtherAfter r0) (tr_totalSharesAfter r0) PRECISION"
  by (auto simp: subgraph_base_def Let_def split: prod.splits option.splits)

lemma half_chain_run: "getRewardsFromChain half_chain demo_props = Inr half_result"
  by code_simp

lemma half_subgraph_run:
  "getRewardsFromSubgraph half_subgraph demo_props = Inr half_subgraph_result"
  by code_simp

lemma half_parse: "parseProps demo_core demo_props = Inr half_parsed"
  by code_simp

section \<open>Facts about the argument errors\<close>

lemma toBlockNumber_cases:
  "\<not> tag_block_zero env arg \<Longrightarrow>
   toBlockNumber env arg =
     (case block_of truthy env arg of
        None \<Rightarrow> Inl (SDKError INVALID_ARGUMENT)
      | Some n \<Rightarrow> Inr n)"
  by (auto simp: toBlockNumber_def block_of_def tag_block_zero_def invariantArgument_def
        truthy_def Let_def split: option.splits block_spec.splits)

lemma toBackBlock_cases:
  "\<not> seconds_off_beat env b \<Longrightarrow>
   toBackBlock env b start =
     (case back_block truthy env b start of
        None \<Rightarrow> Inl (SDKError INVALID_ARGUMENT)
      | Some n \<Rightarrow> if truthy (blocks b) \<and> n < 0 then Inl (SDKError INVALID_ARGUMENT) else Inr n)"
  by (auto simp: toBackBlock_def back_block_def seconds_off_beat_def invariantArgument_def
        Let_def)

lemma zero_back_run: "parseProps demo_core zero_back_props = Inl (SDKError INVALID_ARGUMENT)"
  by code_simp

lemma pending_run: "parseProps demo_core pending_props = Inl (SDKError INVALID_ARGUMENT)"
  by code_simp

text \<open>
  The two situations kept apart.  The tag \<open>earliest\<close> stands for block 0, which has
  been mined; its number \<open>0n\<close> fails the test meant for the missing number of a
  pending block.  The seconds of a back specifier are subtracted from
  \<open>BigInt(Date.now() / 1000)\<close>, which is a range error unless the time is a whole
  number of seconds; the days are subtracted from \<open>BigInt(Date.now())\<close> and divided
  afterwards.
\<close>

lemma earliest_tag_rejected:
  "getBlock demo_core (Some Earliest) = Some 0
   \<and> parseProps demo_core earliest_props = Inl (SDKError INVALID_ARGUMENT)"
  by code_simp

lemma seconds_back_range_error:
  "parseProps off_beat_core seconds_back_props = Inl JSRangeError"
  by code_simp

section \<open>The reward total\<close>

text \<open>
  Claim C1.  Whenever \<open>getRewardsFromChain\<close> or \<open>getRewardsFromSubgraph\<close> returns a
  ledger, its \<open>totalRewards\<close> is the sum of the \<open>change\<close> fields of the rebase records of
  the merged and folded sequence before any filter; and the same query with any other
  setting of \<open>includeZeroRebases\<close> and \<open>includeOnlyRebases\<close> returns a ledger with the
  same \<open>totalRewards\<close>.
\<close>

theorem totalRewards_unfiltered_rebase_sum:
  "(getRewardsFromChain cenv props = Inr cres \<longrightarrow>
      totalRewards cres = rebase_sum (chain_unfiltered cenv props) \<and>
      (\<forall>z b. \<exists>res'.
          getRewardsFromChain cenv (props\<lparr>includeZeroRebases := z, includeOnlyRebases := b\<rparr>)
            = Inr res' \<and> totalRewards res' = totalRewards cres))
   \<and>
   (getRewardsFromSubgraph senv props = Inr sres \<longrightarrow>
      totalRewards sres = rebase_sum (subgraph_unfiltered senv props) \<and>
      (\<forall>z b. \<exists>res'.
          getRewardsFromSubgraph senv (props\<lparr>includeZeroRebases := z, includeOnlyRebases := b\<rparr>)
            = Inr res' \<and> totalRewards res' = totalRewards sres))"
proof (intro conjI impI allI)
  assume a: "getRewardsFromChain cenv props = Inr cres"
  then obtain p where p: "parseProps (core cenv) props = Inr p"
    and r: "cres = chain_ledger cenv p"
    by (auto simp: getRewardsFromChain_Inr)
  show "totalRewards cres = rebase_sum (chain_unfiltered cenv props)"
    using p r by (simp add: chain_unfiltered_def chain_ledger_total chain_fold_acc)
  fix z b
  let ?p' = "p\<lparr>p_includeZeroRebases := (case z of Some v \<Rightarrow> v | None \<Rightarrow> False),
               p_includeOnlyRebases := (case b of Some v \<Rightarrow> v | None \<Rightarrow> False)\<rparr>"
  have "getRewardsFromChain cenv (props\<lparr>includeZeroRebases := z, includeOnlyRebases := b\<rparr>)
          = Inr (chain_ledger cenv ?p')"
    using parseProps_flags[OF p, where z = z and b = b]
    by (simp add: getRewardsFromChain_def Let_def)
  moreover have "totalRewards (chain_ledger cenv ?p') = totalRewards cres"
    using r by (simp add: chain_ledger_total chain_fold_flags)
  ultimately show "\<exists>res'.
      getRewardsFromChain cenv (props\<lparr>includeZeroRebases := z, includeOnlyRebases := b\<rparr>)
        = Inr res' \<and> totalRewards res' = totalRewards cres"
    by blast
next
  assume a: "getRewardsFromSubgraph senv props = Inr sres"
  then obtain p where p: "parseProps (sg_core senv) props = Inr p"
    and r: "sres = subgraph_ledger senv p"
    by (auto simp: getRewardsFromSubgraph_Inr)
  show "totalRewards sres = rebase_sum (subgraph_unfiltered senv props)"
    using p r by (simp add: subgraph_unfiltered_def subgraph_ledger_total subgraph_fold_acc)
  fix z b
  let ?p' = "p\<lparr>p_includeZeroRebases := (case z of Some v \<Rightarrow> v | None \<Rightarrow> False),
               p_includeOnlyRebases := (case b of Some v \<Rightarrow> v | None \<Rightarrow> False)\<rparr>"
  have "getRewardsFromSubgraph senv (props\<lparr>includeZeroRebases := z, includeOnlyRebases := b\<rparr>)
          = Inr (subgraph_ledger senv ?p')"
    using parseProps_flags[OF p, where z = z and b = b] by (simp add: getRewardsFromSubgraph_def)
  moreover have "totalRewards (subgraph_ledger senv ?p') = totalRewards sres"
    using r by (simp add: subgraph_ledger_total subgraph_fold_flags)
  ultimately show "\<exists>res'.
      getRewardsFromSubgraph senv (props\<lparr>includeZeroRebases := z, includeOnlyRebases := b\<rparr>)
        = Inr res' \<and> totalRewards res' = totalRewards sres"
    by blast
qed

theorem totalRewards_unfiltered_rebase_sum_witness:
  "getRewardsFromChain demo_chain demo_props = Inr demo_result
   \<and> totalRewards demo_result = 1
   \<and> rebase_sum (chain_unfiltered demo_chain demo_props) = 1
   \<and> (\<exists>res'. getRewardsFromChain demo_chain
          (demo_props\<lparr>includeZeroRebases := Some True, includeOnlyRebases := None\<rparr>) = Inr res'
        \<and> totalRewards res' = 1)
   \<and> getRewardsFromSubgraph demo_subgraph demo_props = Inr demo_subgraph_result
   \<and> totalRewards demo_subgraph_result = 1
   \<and> rebase_sum (subgraph_unfiltered demo_subgraph demo_props) = 1
   \<and> (\<exists>res'. getRewardsFromSubgraph demo_subgraph
          (demo_props\<lparr>includeZeroRebases := Some True, includeOnlyRebases := None\<rparr>) = Inr res'
        \<and> totalRewards res' = 1)"
proof -
  note t = totalRewards_unfiltered_rebase_sum
    [of demo_chain demo_props demo_result demo_subgraph demo_subgraph_result]
  have c1: "totalRewards demo_result = 1" by (simp add: demo_result_def)
  have s1: "totalRewards demo_subgraph_result = 1" by (simp add: demo_subgraph_result_def)
  from t demo_chain_run c1 have c2: "rebase_sum (chain_unfiltered demo_chain demo_props) = 1"
    by simp
  from t demo_chain_run c1 have c3: "\<exists>res'. getRewardsFromChain demo_chain
          (demo_props\<lparr>includeZeroRebases := Some True, includeOnlyRebases := None\<rparr>) = Inr res'
        \<and> totalRewards res' = 1"
    by simp
  from t demo_subgraph_run s1
  have s2: "rebase_sum (subgraph_unfiltered demo_subgraph demo_props) = 1"
    by simp
  from t demo_subgraph_run s1 have s3: "\<exists>res'. getRewardsFromSubgraph demo_subgraph
          (demo_props\<lparr>includeZeroRebases := Some True, includeOnlyRebases := None\<rparr>) = Inr res'
        \<and> totalRewards res' = 1"
    by simp
  from demo_chain_run demo_subgraph_run c1 c2 c3 s1 s2 s3 show ?thesis by blast
qed

section \<open>The filter on the record type\<close>

text \<open>
  Claim C2.  Let \<open>kept\<close> be the folded sequence as the zero-rebase filter leaves it (the
  whole sequence when \<open>includeZeroRebases\<close> is set).  When \<open>includeOnlyRebases\<close> is
  false, which is its default, the returned sequence is exactly the rebase records of
  \<open>kept\<close>, so every transfer record is dropped and only rebase records remain; when it
  is true the returned sequence is \<open>kept\<close> in full, transfers and rebases alike.  This
  holds on the chain path and on the subgraph path, which apply the two filters in
  opposite order.
\<close>

theorem includeOnlyRebases_polarity:
  "(getRewardsFromChain cenv props = Inr cres \<longrightarrow>
      (let kept = (if zero_of props then chain_unfiltered cenv props
                   else filter not_zero_rebase (chain_unfiltered cenv props))
       in if only_of props then rewards cres = kept
          else rewards cres = filter is_rebase kept \<and> list_all is_rebase (rewards cres)))
   \<and>
   (getRewardsFromSubgraph senv props = Inr sres \<longrightarrow>
      (let kept = (if zero_of props then subgraph_unfiltered senv props
                   else filter not_zero_rebase (subgraph_unfiltered senv props))
       in if only_of props then rewards sres = kept
          else rewards sres = filter is_rebase kept \<and> list_all is_rebase (rewards sres)))"
proof (intro conjI impI)
  assume "getRewardsFromChain cenv props = Inr cres"
  then obtain p where p: "parseProps (core cenv) props = Inr p"
    and r: "cres = chain_ledger cenv p"
    by (auto simp: getRewardsFromChain_Inr)
  from p have u: "chain_unfiltered cenv props = fst (chain_fold cenv p)"
    by (simp add: chain_unfiltered_def)
  from r have "rewards cres = subgraph_filters p (fst (chain_fold cenv p))"
    by (simp add: chain_ledger_rewards filters_commute)
  with u parseProps_flags_of[OF p]
  show "let kept = (if zero_of props then chain_unfiltered cenv props
                    else filter not_zero_rebase (chain_unfiltered cenv props))
        in if only_of props then rewards cres = kept
           else rewards cres = filter is_rebase kept \<and> list_all is_rebase (rewards cres)"
    by (simp add: filters_shape Let_def list_all_filter_self)
next
  assume "getRewardsFromSubgraph senv props = Inr sres"
  then obtain p where p: "parseProps (sg_core senv) props = Inr p"
    and r: "sres = subgraph_ledger senv p"
    by (auto simp: getRewardsFromSubgraph_Inr)
  from p have u: "subgraph_unfiltered senv props = fst (subgraph_fold senv p)"
    by (simp add: subgraph_unfiltered_def)
  from r have "rewards sres = subgraph_filters p (fst (subgraph_fold senv p))"
    by (simp add: subgraph_ledger_rewards)
  with u parseProps_flags_of[OF p]
  show "let kept = (if zero_of props then subgraph_unfiltered senv props
                    else filter not_zero_rebase (subgraph_unfiltered senv props))
        in if only_of props then rewards sres = kept
           else rewards sres = filter is_rebase kept \<and> list_all is_rebase (rewards sres)"
    by (simp add: filters_shape Let_def list_all_filter_self)
qed

theorem includeOnlyRebases_polarity_witness:
  "getRewardsFromChain demo_chain demo_props = Inr demo_result
   \<and> only_of demo_props
   \<and> rewards demo_result = filter not_zero_rebase (chain_unfiltered demo_chain demo_props)
   \<and> map rtype (rewards demo_result) = [Submit, Rebase]
   \<and> getRewardsFromSubgraph demo_subgraph demo_props_default = Inr demo_subgraph_result_default
   \<and> \<not> only_of demo_props_default
   \<and> list_all is_rebase (rewards demo_subgraph_result_default)
   \<and> map rtype (rewards demo_subgraph_result_default) = [Rebase]"
proof -
  have o: "only_of demo_props" "\<not> zero_of demo_props"
    "\<not> only_of demo_props_default" "\<not> zero_of demo_props_default"
    by (simp_all add: only_of_def zero_of_def demo_props_def demo_props_default_def)
  from includeOnlyRebases_polarity
    [of demo_chain demo_props demo_result demo_subgraph demo_subgraph_result]
    demo_chain_run o
  have a: "rewards demo_result = filter not_zero_rebase (chain_unfiltered demo_chain demo_props)"
    by simp
  note t = includeOnlyRebases_polarity
    [of demo_chain demo_props_default demo_result_default
        demo_subgraph demo_subgraph_result_default, unfolded Let_def]
  from t demo_subgraph_run_default o(3)
  have b: "list_all is_rebase (rewards demo_subgraph_result_default)"
    by metis
  have c: "map rtype (rewards demo_result) = [Submit, Rebase]"
    by (simp add: demo_result_def demo_submit_record_def demo_rebase_record_def)
  have d: "map rtype (rewards demo_subgraph_result_default) = [Rebase]"
    by (simp add: demo_subgraph_result_default_def demo_reward_record_def)
  from demo_chain_run demo_subgraph_run_default o a b c d show ?thesis by blast
qed

section \<open>The running share balance of the ledger\<close>

text \<open>
  Claim C3 asks that in every returned sequence each record's \<open>balanceShares\<close> is the
  \<open>balanceShares\<close> of the record before it plus its own \<open>changeShares\<close>, starting from
  \<open>baseBalanceShares\<close>.  Two returned ledgers do not have it.  With the default options
  the chain path returns the rebase records only: in the worked scenario the single
  record returned holds 100 shares and moves none, while \<open>baseBalanceShares\<close> is 0,
  because the submit record between the two has been filtered out.  On the subgraph
  path, with \<open>includeOnlyRebases\<close> true, the record of the transfer of the account to
  itself has the \<open>changeShares\<close> 7 and the \<open>balanceShares\<close> 50 of its entity, while
  \<open>baseBalanceShares\<close> is 50.
\<close>

theorem shares_chain_broken_by_filter_and_by_entity:
  "getRewardsFromChain demo_chain demo_props_default = Inr demo_result_default
   \<and> \<not> only_of demo_props_default
   \<and> baseBalanceShares demo_result_default = 0
   \<and> map balanceShares (rewards demo_result_default) = [100]
   \<and> map changeShares (rewards demo_result_default) = [0]
   \<and> \<not> shares_chain (baseBalanceShares demo_result_default) (rewards demo_result_default)
   \<and> getRewardsFromSubgraph self_subgraph demo_props = Inr self_subgraph_result
   \<and> only_of demo_props
   \<and> baseBalanceShares self_subgraph_result = 50
   \<and> map balanceShares (rewards self_subgraph_result) = [50]
   \<and> map changeShares (rewards self_subgraph_result) = [7]
   \<and> \<not> shares_chain (baseBalanceShares self_subgraph_result) (rewards self_subgraph_result)"
proof -
  have a: "\<not> only_of demo_props_default" "only_of demo_props"
    by (simp_all add: only_of_def demo_props_default_def demo_props_def)
  have b: "baseBalanceShares demo_result_default = 0
   \<and> map balanceShares (rewards demo_result_default) = [100]
   \<and> map changeShares (rewards demo_result_default) = [0]
   \<and> \<not> shares_chain (baseBalanceShares demo_result_default) (rewards demo_result_default)"
    by (simp add: demo_result_default_def demo_result_def demo_rebase_record_def)
  have c: "baseBalanceShares self_subgraph_result = 50
   \<and> map balanceShares (rewards self_subgraph_result) = [50]
   \<and> map changeShares (rewards self_subgraph_result) = [7]
   \<and> \<not> shares_chain (baseBalanceShares self_subgraph_result) (rewards self_subgraph_result)"
    by (simp add: self_subgraph_result_def self_entity_record_def)
  from demo_chain_run_default self_subgraph_run a b c show ?thesis by blast
qed

text \<open>
  Claim C3, amended.  On the chain path the sequence before the filters continues the
  share balance from \<open>baseBalanceShares\<close> record by record, and so does the returned
  sequence whenever \<open>includeOnlyRebases\<close> is true (the zero-rebase filter drops only
  records that move no shares).  On the subgraph path the record of a transfer takes
  its \<open>changeShares\<close> and \<open>balanceShares\<close> from the entity (\<open>shares\<close> and
  \<open>sharesAfterIncrease\<close> when the transfer arrives at the account, \<open>- shares\<close> and
  \<open>sharesAfterDecrease\<close> otherwise); the sequence before the filters, and the returned
  sequence whenever \<open>includeOnlyRebases\<close> is true, continues the share balance from
  \<open>baseBalanceShares\<close> exactly when these fields of the entities do.  On both paths a
  rebase record has \<open>changeShares = 0\<close> and, before the filters and in the returned
  sequence when \<open>includeOnlyRebases\<close> is true, repeats the \<open>balanceShares\<close> of the
  record before it (\<open>baseBalanceShares\<close> for the first).
\<close>

theorem shares_chain_when_transfers_kept:
  "(getRewardsFromChain cenv props = Inr cres \<longrightarrow>
      shares_chain (baseBalanceShares cres) (chain_unfiltered cenv props)
      \<and> (only_of props \<longrightarrow> shares_chain (baseBalanceShares cres) (rewards cres))
      \<and> (only_of props \<longrightarrow> rebase_keeps (baseBalanceShares cres) (rewards cres))
      \<and> list_all (\<lambda>r. changeShares r = 0) (filter is_rebase (rewards cres)))
   \<and>
   (getRewardsFromSubgraph senv props = Inr sres \<longrightarrow>
      entity_fields_copied (addressEqual senv) (address props)
        (subgraph_unfiltered senv props)
      \<and> entity_fields_copied (addressEqual senv) (address props) (rewards sres)
      \<and> shares_chain (baseBalanceShares sres) (subgraph_unfiltered senv props)
          = entities_continue (addressEqual senv) (address props) (baseBalanceShares sres)
              (map originalEvent (subgraph_unfiltered senv props))
      \<and> (only_of props \<longrightarrow>
            shares_chain (baseBalanceShares sres) (rewards sres)
              = entities_continue (addressEqual senv) (address props)
                  (baseBalanceShares sres)
                  (map originalEvent (subgraph_unfiltered senv props)))
      \<and> rebase_keeps (baseBalanceShares sres) (subgraph_unfiltered senv props)
      \<and> (only_of props \<longrightarrow> rebase_keeps (baseBalanceShares sres) (rewards sres))
      \<and> list_all (\<lambda>r. changeShares r = 0) (filter is_rebase (rewards sres)))"
proof (intro conjI impI)
  assume "getRewardsFromChain cenv props = Inr cres"
  then obtain p where p: "parseProps (core cenv) props = Inr p"
    and r: "cres = chain_ledger cenv p"
    by (auto simp: getRewardsFromChain_Inr)
  let ?U = "fst (chain_fold cenv p)"
  have base: "baseBalanceShares cres = prevSharesBalance (chain_base_state cenv p)"
    using r by (simp add: chain_ledger_base)
  have U: "shares_chain (baseBalanceShares cres) ?U"
    unfolding base chain_fold_def by (rule chain_map_shares_chain)
  have nos: "\<And>x. x \<in> set ?U \<Longrightarrow> is_rebase x \<Longrightarrow> changeShares x = 0"
    unfolding chain_fold_def by (rule chain_map_rebase_no_shares)
  from U p show "shares_chain (baseBalanceShares cres) (chain_unfiltered cenv props)"
    by (simp add: chain_unfiltered_def)
  have rw: "rewards cres = subgraph_filters p ?U"
    using r by (simp add: chain_ledger_rewards filters_commute)
  have all0: "list_all (\<lambda>r. changeShares r = 0) (filter is_rebase ?U)"
    using nos by (simp add: list_all_iff)
  show "list_all (\<lambda>r. changeShares r = 0) (filter is_rebase (rewards cres))"
    unfolding rw filters_shape Let_def
    using all0 by (simp add: list_all_iff)
  {
    assume o: "only_of props"
    with parseProps_flags_of[OF p] have op: "p_includeOnlyRebases p" by simp
    have kept: "shares_chain (baseBalanceShares cres) (filter not_zero_rebase ?U)"
      by (rule shares_chain_filter[OF U]) (auto dest: not_zero_rebase_is_rebase nos)
    with U op rw show sc: "shares_chain (baseBalanceShares cres) (rewards cres)"
      by (simp add: filters_shape Let_def)
    show "rebase_keeps (baseBalanceShares cres) (rewards cres)"
    proof (rule shares_chain_rebase_keeps[OF sc])
      fix x assume "x \<in> set (rewards cres)" and "is_rebase x"
      with rw show "changeShares x = 0"
        by (auto simp: filters_shape Let_def nos split: if_splits)
    qed
  }
next
  assume "getRewardsFromSubgraph senv props = Inr sres"
  then obtain p where p: "parseProps (sg_core senv) props = Inr p"
    and r: "sres = subgraph_ledger senv p"
    by (auto simp: getRewardsFromSubgraph_Inr)
  from p have ad: "p_address p = address props" by (auto simp: parseProps_Inr)
  let ?U = "fst (subgraph_fold senv p)"
  have u: "subgraph_unfiltered senv props = ?U"
    using p by (simp add: subgraph_unfiltered_def)
  have base: "baseBalanceShares sres = prevBalanceShares (fst (subgraph_base senv p))"
    using r by (simp add: subgraph_ledger_base)
  have U: "rebase_keeps (baseBalanceShares sres) ?U"
    unfolding base subgraph_fold_def by (rule subgraph_map_rebase_keeps)
  from U u show "rebase_keeps (baseBalanceShares sres) (subgraph_unfiltered senv props)"
    by simp
  have rw: "rewards sres = subgraph_filters p ?U"
    using r by (simp add: subgraph_ledger_rewards)
  from rebase_keeps_no_shares[OF U]
  show "list_all (\<lambda>r. changeShares r = 0) (filter is_rebase (rewards sres))"
    unfolding rw filters_shape Let_def by (simp add: list_all_iff)
  have ef: "entity_fields_copied (addressEqual senv) (address props) ?U"
    unfolding subgraph_fold_def ad[symmetric] by (rule subgraph_map_entity_fields)
  from ef u show "entity_fields_copied (addressEqual senv) (address props)
      (subgraph_unfiltered senv props)"
    by simp
  from ef show "entity_fields_copied (addressEqual senv) (address props) (rewards sres)"
    unfolding rw filters_shape Let_def by (simp add: entity_fields_copied_filter)
  have sc: "shares_chain (baseBalanceShares sres) ?U
          = entities_continue (addressEqual senv) (address props) (baseBalanceShares sres)
              (map originalEvent ?U)"
    unfolding base subgraph_fold_original
    unfolding subgraph_fold_def ad[symmetric] by (rule subgraph_map_shares_chain)
  from sc u show "shares_chain (baseBalanceShares sres) (subgraph_unfiltered senv props)
          = entities_continue (addressEqual senv) (address props) (baseBalanceShares sres)
              (map originalEvent (subgraph_unfiltered senv props))"
    by simp
  {
    assume o: "only_of props"
    with parseProps_flags_of[OF p] have op: "p_includeOnlyRebases p" by simp
    have kept: "rebase_keeps (baseBalanceShares sres) (filter not_zero_rebase ?U)"
      by (rule rebase_keeps_filter[OF U]) (simp add: not_zero_rebase_def)
    with U op rw show "rebase_keeps (baseBalanceShares sres) (rewards sres)"
      by (simp add: filters_shape Let_def)
    have "shares_chain (baseBalanceShares sres) (filter not_zero_rebase ?U)
            = shares_chain (baseBalanceShares sres) ?U"
      by (rule shares_chain_filter_rebases[OF U]) (simp add: not_zero_rebase_def)
    with op rw have "shares_chain (baseBalanceShares sres) (rewards sres)
            = shares_chain (baseBalanceShares sres) ?U"
      by (simp add: filters_shape Let_def)
    with sc u show "shares_chain (baseBalanceShares sres) (rewards sres)
              = entities_continue (addressEqual senv) (address props)
                  (baseBalanceShares sres)
                  (map originalEvent (subgraph_unfiltered senv props))"
      by simp
  }
qed

theorem shares_chain_when_transfers_kept_witness:
  "getRewardsFromChain demo_chain demo_props = Inr demo_result
   \<and> only_of demo_props
   \<and> shares_chain (baseBalanceShares demo_result) (rewards demo_result)
   \<and> rebase_keeps (baseBalanceShares demo_result) (rewards demo_result)
   \<and> map balanceShares (rewards demo_result) = [100, 100]
   \<and> map changeShares (rewards demo_result) = [100, 0]
   \<and> getRewardsFromSubgraph demo_subgraph demo_props = Inr demo_subgraph_result
   \<and> entities_continue (addressEqual demo_subgraph) (address demo_props)
        (baseBalanceShares demo_subgraph_result)
        (map originalEvent (subgraph_unfiltered demo_subgraph demo_props))
   \<and> shares_chain (baseBalanceShares demo_subgraph_result) (rewards demo_subgraph_result)
   \<and> entity_fields_copied (addressEqual demo_subgraph) (address demo_props)
        (rewards demo_subgraph_result)
   \<and> rebase_keeps (baseBalanceShares demo_subgraph_result) (rewards demo_subgraph_result)
   \<and> map rtype (rewards demo_subgraph_result) = [Submit, Rebase]
   \<and> map balanceShares (rewards demo_subgraph_result) = [100, 100]"
proof -
  have o: "only_of demo_props"
    by (simp add: only_of_def demo_props_def)
  note t = shares_chain_when_transfers_kept
    [of demo_chain demo_props demo_result demo_subgraph demo_subgraph_result]
  from t demo_chain_run o
  have a: "shares_chain (baseBalanceShares demo_result) (rewards demo_result)"
    and a': "rebase_keeps (baseBalanceShares demo_result) (rewards demo_result)"
    by blast+
  have e: "entities_continue (addressEqual demo_subgraph) (address demo_props)
        (baseBalanceShares demo_subgraph_result)
        (map originalEvent (subgraph_unfiltered demo_subgraph demo_props))"
  proof -
    have e0: "addressEqual demo_subgraph = (\<lambda>a b. a = b)"
      by (simp add: demo_subgraph_def)
    have e1: "address demo_props = demo_account" by (simp add: demo_props_def)
    have e2: "baseBalanceShares demo_subgraph_result = 0"
      by (simp add: demo_subgraph_result_def)
    show ?thesis
      unfolding e0 e1 e2 demo_subgraph_unfiltered
      by (simp add: demo_transfer_record_def demo_reward_record_def demo_transfer_def)
  qed
  from t demo_subgraph_run o e
  have b: "shares_chain (baseBalanceShares demo_subgraph_result) (rewards demo_subgraph_result)"
    and b': "rebase_keeps (baseBalanceShares demo_subgraph_result)
               (rewards demo_subgraph_result)"
    and b'': "entity_fields_copied (addressEqual demo_subgraph) (address demo_props)
        (rewards demo_subgraph_result)"
    by blast+
  have c: "map balanceShares (rewards demo_result) = [100, 100]"
    "map changeShares (rewards demo_result) = [100, 0]"
    by (simp_all add: demo_result_def demo_submit_record_def demo_rebase_record_def)
  have d: "map rtype (rewards demo_subgraph_result) = [Submit, Rebase]"
    "map balanceShares (rewards demo_subgraph_result) = [100, 100]"
    by (simp_all add: demo_subgraph_result_def demo_transfer_record_def demo_reward_record_def)
  from demo_chain_run demo_subgraph_run o a a' b b' b'' c d e show ?thesis by blast
qed

section \<open>Rebases with constant total shares\<close>

text \<open>
  Claim C4 asks that, for a stream of rebases only with constant total shares, each
  record's \<open>change\<close> be \<open>shares * deltaEther / totalShares\<close>, one truncating conversion
  of the ether difference.  The fold converts the balance before and after the rebase
  and subtracts: with 1 share out of 2 and the total ether going from 1 to 2, the
  balance goes from \<open>1 * 1 / 2 = 0\<close> to \<open>1 * 2 / 2 = 1\<close>, so \<open>change\<close> is 1, whereas the
  conversion of the difference is \<open>1 * (2 - 1) / 2 = 0\<close>.
\<close>

theorem rebase_change_is_not_converted_delta:
  "getRewardsFromChain half_chain demo_props = Inr half_result
   \<and> map change (rewards half_result) = [1, 1]
   \<and> delta_steps 1 2 1 [2, 5] = [0, 1]
   \<and> sharesToSteth 1 (2 - 1) 2 PRECISION = 0
   \<and> change (hd (rewards half_result)) \<noteq> sharesToSteth 1 (2 - 1) 2 PRECISION"
proof -
  have a: "map change (rewards half_result) = [1, 1]"
    by (simp add: half_result_def half_record1_def half_record2_def)
  have b: "sharesToSteth 1 (2 - 1) 2 PRECISION = 0"
    by (simp add: sharesToSteth_def bigint_div_def)
  have c: "delta_steps 1 2 1 [2, 5] = [0, 1]"
    by (simp add: sharesToSteth_def bigint_div_def)
  have d: "change (hd (rewards half_result)) = 1"
    by (simp add: half_result_def half_record1_def)
  from half_chain_run a b c d show ?thesis by simp
qed

text \<open>
  Claim C4, amended.  For a query whose merged events are rebases only, each leaving
  the total shares at the value \<open>T\<close> they have at the base block (on the subgraph path:
  at the last rebase before the range, which must exist), the \<open>change\<close> of each rebase
  record is the difference of two conversions, \<open>sharesToSteth\<close> of the shares at the
  total ether after the rebase minus \<open>sharesToSteth\<close> of the shares at the total ether
  before it; the sum of these changes is \<open>totalRewards\<close>; and when the shares and the
  ether values are not negative and \<open>T\<close> is positive, each \<open>change\<close> differs from
  \<open>shares * deltaEther / totalShares\<close> by at most one unit.
\<close>

theorem rebase_change_is_balance_difference:
  "(getRewardsFromChain cenv props = Inr cres \<and> parseProps (core cenv) props = Inr p
      \<and> only_rebases (getTotalShares cenv (preBlock_of p)) (chain_events cenv p) \<longrightarrow>
      (let s = baseBalanceShares cres;
           T = getTotalShares cenv (preBlock_of p);
           E0 = getTotalPooledEther cenv (preBlock_of p);
           Es = chain_ethers cenv p;
           changes = map change (chain_unfiltered cenv props)
       in changes = balance_steps s T E0 Es
          \<and> sum_list changes = totalRewards cres
          \<and> (0 \<le> s \<and> 0 < T \<and> list_all (\<lambda>E. 0 \<le> E) (E0 # Es) \<longrightarrow>
               list_all2 (\<lambda>c d. \<bar>c - d\<bar> \<le> 1) changes (delta_steps s T E0 Es))))
   \<and>
   (getRewardsFromSubgraph senv props = Inr sres \<and> parseProps (sg_core senv) props = Inr q
      \<and> snd (getInitialData senv (p_address q) (preBlock_of q)) = Some r0
      \<and> only_total_rewards (tr_totalSharesAfter r0) (subgraph_events senv q) \<longrightarrow>
      (let s = baseBalanceShares sres;
           T = tr_totalSharesAfter r0;
           E0 = tr_totalPooledEtherAfter r0;
           Es = subgraph_ethers senv q;
           changes = map change (subgraph_unfiltered senv props)
       in changes = balance_steps s T E0 Es
          \<and> sum_list changes = totalRewards sres
          \<and> (0 \<le> s \<and> 0 < T \<and> list_all (\<lambda>E. 0 \<le> E) (E0 # Es) \<longrightarrow>
               list_all2 (\<lambda>c d. \<bar>c - d\<bar> \<le> 1) changes (delta_steps s T E0 Es))))"
proof (intro conjI impI)
  assume a: "getRewardsFromChain cenv props = Inr cres \<and> parseProps (core cenv) props = Inr p
      \<and> only_rebases (getTotalShares cenv (preBlock_of p)) (chain_events cenv p)"
  then have p: "parseProps (core cenv) props = Inr p"
    and o: "only_rebases (getTotalShares cenv (preBlock_of p)) (chain_events cenv p)"
    and g: "getRewardsFromChain cenv props = Inr cres"
    by blast+
  from g p have r: "cres = chain_ledger cenv p"
    by (auto simp: getRewardsFromChain_Inr)
  let ?U = "fst (chain_fold cenv p)"
  have u: "chain_unfiltered cenv props = ?U" using p by (simp add: chain_unfiltered_def)
  have base: "baseBalanceShares cres = prevSharesBalance (chain_base_state cenv p)"
    using r by (simp add: chain_ledger_base)
  from chain_map_only_rebases[OF o, of "chain_base_state cenv p" "p_address p"
      "contractAddressWithdrawalQueue cenv"] chain_base_fields[of cenv p]
  have ch: "map change ?U = balance_steps (baseBalanceShares cres)
              (getTotalShares cenv (preBlock_of p)) (getTotalPooledEther cenv (preBlock_of p))
              (chain_ethers cenv p)"
    and allr: "list_all is_rebase ?U"
    by (simp_all add: chain_fold_def base chain_ethers_def)
  have tot: "sum_list (map change ?U) = totalRewards cres"
    using r rebase_sum_all[OF allr] by (simp add: chain_ledger_total chain_fold_acc)
  show "let s = baseBalanceShares cres;
           T = getTotalShares cenv (preBlock_of p);
           E0 = getTotalPooledEther cenv (preBlock_of p);
           Es = chain_ethers cenv p;
           changes = map change (chain_unfiltered cenv props)
       in changes = balance_steps s T E0 Es
          \<and> sum_list changes = totalRewards cres
          \<and> (0 \<le> s \<and> 0 < T \<and> list_all (\<lambda>E. 0 \<le> E) (E0 # Es) \<longrightarrow>
               list_all2 (\<lambda>c d. \<bar>c - d\<bar> \<le> 1) changes (delta_steps s T E0 Es))"
    unfolding Let_def u using ch tot steps_bound by metis
next
  assume a: "getRewardsFromSubgraph senv props = Inr sres
      \<and> parseProps (sg_core senv) props = Inr q
      \<and> snd (getInitialData senv (p_address q) (preBlock_of q)) = Some r0
      \<and> only_total_rewards (tr_totalSharesAfter r0) (subgraph_events senv q)"
  then have p: "parseProps (sg_core senv) props = Inr q"
    and i: "snd (getInitialData senv (p_address q) (preBlock_of q)) = Some r0"
    and o: "only_total_rewards (tr_totalSharesAfter r0) (subgraph_events senv q)"
    and g: "getRewardsFromSubgraph senv props = Inr sres"
    by blast+
  from g p have r: "sres = subgraph_ledger senv q"
    by (auto simp: getRewardsFromSubgraph_Inr)
  let ?U = "fst (subgraph_fold senv q)"
  have u: "subgraph_unfiltered senv props = ?U" using p by (simp add: subgraph_unfiltered_def)
  have base: "baseBalanceShares sres = prevBalanceShares (fst (subgraph_base senv q))"
    using r by (simp add: subgraph_ledger_base)
  from subgraph_map_only_rebases[OF o subgraph_base_rebase[OF i], of "addressEqual senv"
      "p_address q" "sg_contractAddressWithdrawalQueue senv"]
  have ch: "map change ?U = balance_steps (baseBalanceShares sres)
              (tr_totalSharesAfter r0) (tr_totalPooledEtherAfter r0) (subgraph_ethers senv q)"
    and allr: "list_all is_rebase ?U"
    by (simp_all add: subgraph_fold_def base subgraph_ethers_def)
  have tot: "sum_list (map change ?U) = totalRewards sres"
    using r rebase_sum_all[OF allr] by (simp add: subgraph_ledger_total subgraph_fold_acc)
  show "let s = baseBalanceShares sres;
           T = tr_totalSharesAfter r0;
           E0 = tr_totalPooledEtherAfter r0;
           Es = subgraph_ethers senv q;
           changes = map change (subgraph_unfiltered senv props)
       in changes = balance_steps s T E0 Es
          \<and> sum_list changes = totalRewards sres
          \<and> (0 \<le> s \<and> 0 < T \<and> list_all (\<lambda>E. 0 \<le> E) (E0 # Es) \<longrightarrow>
               list_all2 (\<lambda>c d. \<bar>c - d\<bar> \<le> 1) changes (delta_steps s T E0 Es))"
    unfolding Let_def u using ch tot steps_bound by metis
qed

theorem rebase_change_is_balance_difference_witness:
  "getRewardsFromChain half_chain demo_props = Inr half_result
   \<and> parseProps (core half_chain) demo_props = Inr half_parsed
   \<and> only_rebases (getTotalShares half_chain (preBlock_of half_parsed))
        (chain_events half_chain half_parsed)
   \<and> map change (chain_unfiltered half_chain demo_props) = balance_steps 1 2 1 [2, 5]
   \<and> balance_steps 1 2 1 [2, 5] = [1, 1]
   \<and> sum_list (map change (chain_unfiltered half_chain demo_props)) = totalRewards half_result
   \<and> list_all2 (\<lambda>c d. \<bar>c - d\<bar> \<le> 1) (map change (chain_unfiltered half_chain demo_props))
        (delta_steps 1 2 1 [2, 5])
   \<and> getRewardsFromSubgraph half_subgraph demo_props = Inr half_subgraph_result
   \<and> parseProps (sg_core half_subgraph) demo_props = Inr half_parsed
   \<and> snd (getInitialData half_subgraph (p_address half_parsed) (preBlock_of half_parsed))
        = Some half_reward0
   \<and> only_total_rewards (tr_totalSharesAfter half_reward0)
        (subgraph_events half_subgraph half_parsed)
   \<and> map change (subgraph_unfiltered half_subgraph demo_props) = balance_steps 1 2 1 [2, 5]
   \<and> sum_list (map change (subgraph_unfiltered half_subgraph demo_props))
        = totalRewards half_subgraph_result"
proof -
  have cp: "parseProps (core half_chain) demo_props = Inr half_parsed"
    using half_parse by (simp add: half_chain_def)
  have sp: "parseProps (sg_core half_subgraph) demo_props = Inr half_parsed"
    using half_parse by (simp add: half_subgraph_def)
  have co: "only_rebases (getTotalShares half_chain (preBlock_of half_parsed))
        (chain_events half_chain half_parsed)"
    by code_simp
  have si: "snd (getInitialData half_subgraph (p_address half_parsed) (preBlock_of half_parsed))
        = Some half_reward0"
    by (simp add: half_subgraph_def)
  have so: "only_total_rewards (tr_totalSharesAfter half_reward0)
        (subgraph_events half_subgraph half_parsed)"
    by code_simp
  have v: "baseBalanceShares half_result = 1"
    "getTotalShares half_chain (preBlock_of half_parsed) = 2"
    "getTotalPooledEther half_chain (preBlock_of half_parsed) = 1"
    "baseBalanceShares half_subgraph_result = 1"
    "tr_totalSharesAfter half_reward0 = 2" "tr_totalPooledEtherAfter half_reward0 = 1"
    by (simp_all add: half_result_def half_chain_def half_subgraph_result_def half_reward0_def)
  have ce: "chain_ethers half_chain half_parsed = [2, 5]" by code_simp
  have se: "subgraph_ethers half_subgraph half_parsed = [2, 5]" by code_simp
  note t = rebase_change_is_balance_difference
    [of half_chain demo_props half_result half_parsed half_subgraph half_subgraph_result
        half_parsed half_reward0, unfolded Let_def v ce se]
  from t half_chain_run cp co[unfolded v]
  have c1: "map change (chain_unfiltered half_chain demo_props) = balance_steps 1 2 1 [2, 5]"
    and c2: "sum_list (map change (chain_unfiltered half_chain demo_props))
               = totalRewards half_result"
    and c3: "0 \<le> (1::int) \<and> 0 < (2::int) \<and> list_all (\<lambda>E. 0 \<le> E) [1, 2, 5::int] \<longrightarrow>
       list_all2 (\<lambda>c d. \<bar>c - d\<bar> \<le> 1) (map change (chain_unfiltered half_chain demo_props))
        (delta_steps 1 2 1 [2, 5])"
    by blast+
  from c3 have c4: "list_all2 (\<lambda>c d. \<bar>c - d\<bar> \<le> 1)
        (map change (chain_unfiltered half_chain demo_props)) (delta_steps 1 2 1 [2, 5])"
    by simp
  from t half_subgraph_run sp si so[unfolded v]
  have s1: "map change (subgraph_unfiltered half_subgraph demo_props)
              = balance_steps 1 2 1 [2, 5]"
    and s2: "sum_list (map change (subgraph_unfiltered half_subgraph demo_props))
               = totalRewards half_subgraph_result"
    by blast+
  have bs: "balance_steps 1 2 1 [2, 5] = [1, 1]"
    by (simp add: sharesToSteth_def bigint_div_def)
  from half_chain_run half_subgraph_run cp sp co si so c1 c2 c4 s1 s2 bs
  show ?thesis by blast
qed

section \<open>Classification of transfers\<close>

text \<open>
  Claim C5 asks that a transfer whose shares arrive at the queried account from the
  zero address be a submit, and that the two paths classify alike.  The subgraph path
  decides whether a transfer arrives at the account with \<open>addressEqual\<close>, the chain
  path with the equality of the two strings.  For an account passed in lower case and
  a mint to it whose log carries the address with its checksum capitals, the subgraph
  path returns a submit of 100 shares and the chain path a transfer-out that takes the
  share balance from 0 to - 100.
\<close>

theorem mint_to_account_in_other_case_is_transfer_out:
  "equal_ignoring_case mixed_account lower_account
   \<and> mixed_account \<noteq> lower_account
   \<and> args case_mint = TransferShares zeroAddress mixed_account 100
   \<and> address case_props = lower_account
   \<and> getRewardsFromChain case_chain case_props = Inr case_chain_result
   \<and> map rtype (rewards case_chain_result) = [TransferOut]
   \<and> map balanceShares (rewards case_chain_result) = [- 100]
   \<and> getRewardsFromSubgraph case_subgraph case_props = Inr case_subgraph_result
   \<and> map rtype (rewards case_subgraph_result) = [Submit]
   \<and> map balanceShares (rewards case_subgraph_result) = [100]"
proof -
  have a: "equal_ignoring_case mixed_account lower_account" by code_simp
  have b: "mixed_account \<noteq> lower_account"
    by (simp add: mixed_account_def lower_account_def)
  have c: "args case_mint = TransferShares zeroAddress mixed_account 100"
    by (simp add: case_mint_def)
  have d: "address case_props = lower_account"
    by (simp add: case_props_def demo_props_def)
  have e: "map rtype (rewards case_chain_result) = [TransferOut]
      \<and> map balanceShares (rewards case_chain_result) = [- 100]"
    by (simp add: case_chain_result_def)
  have f: "map rtype (rewards case_subgraph_result) = [Submit]
      \<and> map balanceShares (rewards case_subgraph_result) = [100]"
    by (simp add: case_subgraph_result_def)
  from a b c d e f case_chain_run case_subgraph_run show ?thesis by blast
qed

section \<open>The order of the ledger\<close>

text \<open>
  Claim C6.  Whenever a query returns a ledger, its records are in non-decreasing order
  of the key \<open>(blockNumber, logIndex)\<close> of the events they were made from: the merged
  events are sorted by block number, ties by ascending log index, before the fold, and
  neither the fold nor the filters reorder.  This holds on both paths.
\<close>

theorem rewards_nondecreasing_in_block_and_logIndex:
  "(getRewardsFromChain cenv props = Inr cres \<longrightarrow>
      sorted_wrt chain_key_le (map originalEvent (chain_unfiltered cenv props)) \<and>
      sorted_wrt (\<lambda>r1 r2. chain_key_le (originalEvent r1) (originalEvent r2)) (rewards cres))
   \<and>
   (getRewardsFromSubgraph senv props = Inr sres \<longrightarrow>
      sorted_wrt subgraph_key_le (map originalEvent (subgraph_unfiltered senv props)) \<and>
      sorted_wrt (\<lambda>r1 r2. subgraph_key_le (originalEvent r1) (originalEvent r2)) (rewards sres))"
proof (intro conjI impI)
  assume a: "getRewardsFromChain cenv props = Inr cres"
  then obtain p where p: "parseProps (core cenv) props = Inr p"
    and r: "cres = chain_ledger cenv p"
    by (auto simp: getRewardsFromChain_Inr)
  have s: "sorted_wrt chain_key_le (map originalEvent (fst (chain_fold cenv p)))"
    by (simp add: chain_fold_original chain_events_sorted)
  with p show "sorted_wrt chain_key_le (map originalEvent (chain_unfiltered cenv props))"
    by (simp add: chain_unfiltered_def)
  from s have "sorted_wrt (\<lambda>r1 r2. chain_key_le (originalEvent r1) (originalEvent r2))
                 (fst (chain_fold cenv p))"
    by (simp add: sorted_wrt_map)
  then show "sorted_wrt (\<lambda>r1 r2. chain_key_le (originalEvent r1) (originalEvent r2))
               (rewards cres)"
    using r by (simp add: chain_ledger_rewards filters_commute filters_sorted)
next
  assume a: "getRewardsFromSubgraph senv props = Inr sres"
  then obtain p where p: "parseProps (sg_core senv) props = Inr p"
    and r: "sres = subgraph_ledger senv p"
    by (auto simp: getRewardsFromSubgraph_Inr)
  have s: "sorted_wrt subgraph_key_le (map originalEvent (fst (subgraph_fold senv p)))"
    by (simp add: subgraph_fold_original subgraph_events_sorted)
  with p show "sorted_wrt subgraph_key_le (map originalEvent (subgraph_unfiltered senv props))"
    by (simp add: subgraph_unfiltered_def)
  from s have "sorted_wrt (\<lambda>r1 r2. subgraph_key_le (originalEvent r1) (originalEvent r2))
                 (fst (subgraph_fold senv p))"
    by (simp add: sorted_wrt_map)
  then show "sorted_wrt (\<lambda>r1 r2. subgraph_key_le (originalEvent r1) (originalEvent r2))
               (rewards sres)"
    using r by (simp add: subgraph_ledger_rewards filters_sorted)
qed

theorem rewards_nondecreasing_in_block_and_logIndex_witness:
  "getRewardsFromChain demo_chain demo_props = Inr demo_result
   \<and> sorted_wrt (\<lambda>r1 r2. chain_key_le (originalEvent r1) (originalEvent r2))
        (rewards demo_result)
   \<and> map (\<lambda>r. (blockNumber (originalEvent r), logIndex (originalEvent r)))
        (rewards demo_result) = [(10, 2), (20, 0)]
   \<and> getRewardsFromSubgraph demo_subgraph demo_props = Inr demo_subgraph_result
   \<and> sorted_wrt (\<lambda>r1 r2. subgraph_key_le (originalEvent r1) (originalEvent r2))
        (rewards demo_subgraph_result)
   \<and> map (\<lambda>r. (sg_block (originalEvent r), sg_logIndex (originalEvent r)))
        (rewards demo_subgraph_result) = [(10, 2), (20, 0)]"
proof -
  note t = rewards_nondecreasing_in_block_and_logIndex
    [of demo_chain demo_props demo_result demo_subgraph demo_subgraph_result]
  from t demo_chain_run
  have a: "sorted_wrt (\<lambda>r1 r2. chain_key_le (originalEvent r1) (originalEvent r2))
             (rewards demo_result)"
    by simp
  from t demo_subgraph_run
  have b: "sorted_wrt (\<lambda>r1 r2. subgraph_key_le (originalEvent r1) (originalEvent r2))
             (rewards demo_subgraph_result)"
    by simp
  have c: "map (\<lambda>r. (blockNumber (originalEvent r), logIndex (originalEvent r)))
             (rewards demo_result) = [(10, 2), (20, 0)]"
    by (simp add: demo_result_def demo_submit_record_def demo_rebase_record_def
          demo_submit_def demo_rebase_def)
  have d: "map (\<lambda>r. (sg_block (originalEvent r), sg_logIndex (originalEvent r)))
             (rewards demo_subgraph_result) = [(10, 2), (20, 0)]"
    by (simp add: demo_subgraph_result_def demo_transfer_record_def demo_reward_record_def
          demo_transfer_def demo_reward1_def)
  from demo_chain_run demo_subgraph_run a b c d show ?thesis by blast
qed

section \<open>The lower bound of the chain path\<close>

text \<open>
  Claim C7 asks that \<open>getRewardsFromChain\<close> fail with the error of code
  \<open>NOT_SUPPORTED\<close>, and return no ledger, whenever the resolved \<open>fromBlock\<close> is strictly
  below the block of the earliest \<open>TokenRebased\<close> event of the network.  The source
  builds that error and does not throw it.  In the worked scenario the bound is block 5;
  the query from block 4 resolves, its \<open>fromBlock\<close> is below the bound, and the call
  returns the ledger of the range from block 4 with its submit and its rebase record.
\<close>

theorem fromBlock_before_first_rebase_returns_ledger:
  "parseProps (core demo_chain) demo_props_early = Inr early_parsed
   \<and> p_fromBlock early_parsed < earliestRebaseEventBlock demo_chain
   \<and> getRewardsFromChain demo_chain demo_props_early = Inr early_result
   \<and> getRewardsFromChain demo_chain demo_props_early \<noteq> Inl (SDKError NOT_SUPPORTED)
   \<and> fromBlock early_result = 4
   \<and> map rtype (rewards early_result) = [Submit, Rebase]
   \<and> totalRewards early_result = 1"
proof -
  have a: "p_fromBlock early_parsed < earliestRebaseEventBlock demo_chain"
    by (simp add: early_parsed_def demo_chain_def)
  have b: "fromBlock early_result = 4 \<and> map rtype (rewards early_result) = [Submit, Rebase]
      \<and> totalRewards early_result = 1"
    by (simp add: early_result_def demo_result_def demo_submit_record_def
          demo_rebase_record_def)
  from early_parse early_run a b show ?thesis by simp
qed

section \<open>Argument errors of the range resolver\<close>

text \<open>
  Claim C8 asks that the resolver raise an argument error exactly in the five cases,
  with a back specifier counting as underspecified when none of its fields is set.  A
  query for the range ending at block 100 and reaching 0 blocks back has the \<open>blocks\<close>
  field set, leads to \<open>fromBlock = 100\<close>, which is neither negative nor above
  \<open>toBlock\<close>, uses the default step and no block tag; none of the five cases holds,
  and the resolver raises the argument error all the same.
\<close>

theorem zero_blocks_back_rejected:
  "parseProps demo_core zero_back_props = Inl (SDKError INVALID_ARGUMENT)
   \<and> \<not> range_error_cases present demo_core zero_back_props"
proof -
  have "\<not> range_error_cases present demo_core zero_back_props"
    by (simp add: range_error_cases_def present_def zero_back_props_def block_of_def
          back_block_def block_n_def step_of_def DEFAULT_STEP_def)
  with zero_back_run show ?thesis by simp
qed

text \<open>
  Claim C8, amended.  A field of the options counts as set when it is present and not
  0.  With that reading the resolver raises an argument error exactly when one of the
  five cases holds: the resolved \<open>toBlock\<close> is below the resolved \<open>fromBlock\<close>; the
  step is not positive; a back specifier is used and none of \<open>blocks\<close>, \<open>days\<close>,
  \<open>seconds\<close> is set; its blocks lead below block 0; or a block tag stands for a pending
  block.  Nothing is said about a query in which a block tag stands for block number 0
  or in which the seconds of a back specifier are used at a time that is not a whole
  number of seconds.
\<close>

theorem argument_error_exactly_in_cases:
  "\<not> kept_apart env props \<Longrightarrow>
   (parseProps env props = Inl (SDKError INVALID_ARGUMENT)) = range_error_cases truthy env props"
proof -
  assume k: "\<not> kept_apart env props"
  let ?to = "case to_arg props of Some a \<Rightarrow> a | None \<Rightarrow> default_to"
  from k have tz: "\<not> tag_block_zero env ?to" by (simp add: kept_apart_def)
  note T = toBlockNumber_cases[OF tz]
  show ?thesis
  proof (cases "block_of truthy env ?to")
    case None
    with T show ?thesis
      by (simp add: parseProps_alt resolve_to_def range_error_cases_def)
  next
    case (Some toB)
    with T have rt: "resolve_to env props = Inr toB" by (simp add: resolve_to_def)
    show ?thesis
    proof (cases "from_arg props")
      case (Some a)
      with k have "\<not> tag_block_zero env a" by (simp add: kept_apart_def)
      note F = toBlockNumber_cases[OF this]
      from rt Some F \<open>block_of truthy env ?to = Some toB\<close> show ?thesis
        by (auto simp: parseProps_alt resolve_from_def range_error_cases_def
              split: option.splits)
    next
      case None
      note fn = None
      show ?thesis
      proof (cases "back_spec props")
        case None
        with rt fn \<open>block_of truthy env ?to = Some toB\<close> show ?thesis
          by (simp add: parseProps_alt resolve_from_def range_error_cases_def)
      next
        case (Some b)
        with k fn have "\<not> seconds_off_beat env b" by (simp add: kept_apart_def)
        note B = toBackBlock_cases[OF this, of toB]
        from rt fn Some B \<open>block_of truthy env ?to = Some toB\<close> show ?thesis
          by (auto simp: parseProps_alt resolve_from_def range_error_cases_def
                split: option.splits if_splits)
      qed
    qed
  qed
qed

theorem argument_error_exactly_in_cases_witness:
  "\<not> kept_apart demo_core zero_back_props
   \<and> parseProps demo_core zero_back_props = Inl (SDKError INVALID_ARGUMENT)
   \<and> range_error_cases truthy demo_core zero_back_props
   \<and> \<not> kept_apart demo_core pending_props
   \<and> parseProps demo_core pending_props = Inl (SDKError INVALID_ARGUMENT)
   \<and> range_error_cases truthy demo_core pending_props
   \<and> \<not> kept_apart demo_core demo_props
   \<and> parseProps demo_core demo_props = Inr half_parsed
   \<and> \<not> range_error_cases truthy demo_core demo_props"
proof -
  have k1: "\<not> kept_apart demo_core zero_back_props"
    by (simp add: kept_apart_def zero_back_props_def tag_block_zero_def block_n_def
          seconds_off_beat_def truthy_def)
  have k2: "\<not> kept_apart demo_core pending_props"
    by (simp add: kept_apart_def pending_props_def demo_props_def tag_block_zero_def
          block_n_def truthy_def demo_core_def)
  have k3: "\<not> kept_apart demo_core demo_props"
    by (simp add: kept_apart_def demo_props_def tag_block_zero_def block_n_def truthy_def)
  from argument_error_exactly_in_cases[OF k1] zero_back_run
  have a: "range_error_cases truthy demo_core zero_back_props" by simp
  from argument_error_exactly_in_cases[OF k2] pending_run
  have b: "range_error_cases truthy demo_core pending_props" by simp
  from argument_error_exactly_in_cases[OF k3] half_parse
  have c: "\<not> range_error_cases truthy demo_core demo_props" by simp
  from k1 k2 k3 a b c zero_back_run pending_run half_parse show ?thesis by blast
qed

section \<open>The cap of the subgraph path\<close>

text \<open>
  Claim C9.  When the range of a \<open>getRewardsFromSubgraph\<close> query resolves with a
  \<open>toBlock\<close> above the last block the subgraph has indexed, the call returns a ledger
  (no error is raised); the transfers and the total rewards that are merged and folded
  are both fetched with the last indexed block as upper bound; and the \<open>toBlock\<close> of
  the ledger is the last indexed block, not the resolved one.
\<close>

theorem toBlock_capped_to_last_indexed:
  "parseProps (sg_core env) props = Inr p \<Longrightarrow> getLastIndexedBlock env < p_toBlock p
   \<Longrightarrow> getRewardsFromSubgraph env props = Inr (subgraph_ledger env p)
       \<and> toBlock (subgraph_ledger env p) = getLastIndexedBlock env
       \<and> toBlock (subgraph_ledger env p) \<noteq> p_toBlock p
       \<and> lastIndexedBlock (subgraph_ledger env p) = getLastIndexedBlock env
       \<and> subgraph_events env p =
           sort_by compare_subgraph
             (map TotalReward
                (getTotalRewards env (p_fromBlock p) (getLastIndexedBlock env) (p_step p))
              @ map TransferEvent
                  (getTransfers env (p_address p) (p_fromBlock p)
                     (getLastIndexedBlock env) (p_step p)))
       \<and> map originalEvent (subgraph_unfiltered env props) = subgraph_events env p"
proof -
  assume p: "parseProps (sg_core env) props = Inr p"
    and lt: "getLastIndexedBlock env < p_toBlock p"
  from lt have cap: "cappedToBlock env p = getLastIndexedBlock env"
    by (simp add: cappedToBlock_def)
  have 1: "getRewardsFromSubgraph env props = Inr (subgraph_ledger env p)"
    using p by (simp add: getRewardsFromSubgraph_def)
  have 2: "toBlock (subgraph_ledger env p) = getLastIndexedBlock env"
    using cap by (simp add: subgraph_ledger_toBlock)
  have 3: "lastIndexedBlock (subgraph_ledger env p) = getLastIndexedBlock env"
    by (simp add: subgraph_ledger_def Let_def split_beta)
  have 4: "subgraph_events env p =
           sort_by compare_subgraph
             (map TotalReward
                (getTotalRewards env (p_fromBlock p) (getLastIndexedBlock env) (p_step p))
              @ map TransferEvent
                  (getTransfers env (p_address p) (p_fromBlock p)
                     (getLastIndexedBlock env) (p_step p)))"
    using cap by (simp add: subgraph_events_def Let_def)
  have 5: "map originalEvent (subgraph_unfiltered env props) = subgraph_events env p"
    using p by (simp add: subgraph_unfiltered_def subgraph_fold_original)
  from 1 2 3 4 5 lt show ?thesis by simp
qed

theorem toBlock_capped_to_last_indexed_witness:
  "parseProps (sg_core demo_subgraph) demo_props
     = Inr \<lparr>p_address = demo_account, p_fromBlock = 5, p_toBlock = 30, p_step = 1000,
            p_includeZeroRebases = False, p_includeOnlyRebases = True\<rparr>
   \<and> getLastIndexedBlock demo_subgraph = 28
   \<and> getRewardsFromSubgraph demo_subgraph demo_props = Inr demo_subgraph_result
   \<and> toBlock demo_subgraph_result = 28"
proof -
  let ?p = "\<lparr>p_address = demo_account, p_fromBlock = 5, p_toBlock = 30, p_step = 1000,
            p_includeZeroRebases = False, p_includeOnlyRebases = True\<rparr>"
  have a: "parseProps (sg_core demo_subgraph) demo_props = Inr ?p"
    by code_simp
  have l: "getLastIndexedBlock demo_subgraph = 28" by (simp add: demo_subgraph_def)
  then have b: "getLastIndexedBlock demo_subgraph < p_toBlock ?p" by simp
  from toBlock_capped_to_last_indexed[OF a b]
  have c: "getRewardsFromSubgraph demo_subgraph demo_props
             = Inr (subgraph_ledger demo_subgraph ?p)"
    and d: "toBlock (subgraph_ledger demo_subgraph ?p) = getLastIndexedBlock demo_subgraph"
    by blast+
  from c demo_subgraph_run have "demo_subgraph_result = subgraph_ledger demo_subgraph ?p"
    by simp
  with d l have "toBlock demo_subgraph_result = 28" by simp
  with a l demo_subgraph_run show ?thesis by blast
qed

section \<open>Transfers to the queried address on the chain path\<close>

text \<open>
  Claim C10.  In \<open>getRewardsFromChain\<close> a \<open>TransferShares\<close> event whose \<open>to\<close> is the
  queried address takes the incoming branch, whatever its \<open>from\<close>: the record is a
  submit when \<open>from\<close> is the zero address and a transfer-in otherwise, and its
  \<open>balanceShares\<close>, which becomes the running balance, is the running balance plus
  \<open>sharesValue\<close>.  This includes the event whose \<open>from\<close> is the queried address as well:
  the running balance goes up by \<open>sharesValue\<close>.  The first part states it for one
  call of the callback, the second for every record of the folded sequence of a query.
\<close>

theorem transfer_to_account_is_incoming:
  "(args e = TransferShares from addr v \<and> chain_step addr wq st e = (r, st') \<longrightarrow>
      rtype r = (if from = zeroAddress then Submit else TransferIn)
      \<and> changeShares r = v
      \<and> balanceShares r = prevSharesBalance st + v
      \<and> prevSharesBalance st' = prevSharesBalance st + v)
   \<and>
   (args e = TransferShares addr addr v \<and> chain_step addr wq st e = (r, st') \<longrightarrow>
      prevSharesBalance st' = prevSharesBalance st + v)
   \<and>
   (getRewardsFromChain cenv props = Inr cres \<longrightarrow>
      incoming_added (address props) (baseBalanceShares cres) (chain_unfiltered cenv props))"
proof (intro conjI impI)
  assume a: "args e = TransferShares from addr v \<and> chain_step addr wq st e = (r, st')"
  then have s: "rtype r = (if from = zeroAddress then Submit else TransferIn)
      \<and> changeShares r = v
      \<and> balanceShares r = prevSharesBalance st + v
      \<and> prevSharesBalance st' = prevSharesBalance st + v"
    using chain_step_incoming[of e "from" addr v wq st r st'] by blast
  from s show "rtype r = (if from = zeroAddress then Submit else TransferIn)" by blast
  from s show "changeShares r = v" by blast
  from s show "balanceShares r = prevSharesBalance st + v" by blast
  from s show "prevSharesBalance st' = prevSharesBalance st + v" by blast
next
  assume "args e = TransferShares addr addr v \<and> chain_step addr wq st e = (r, st')"
  then show "prevSharesBalance st' = prevSharesBalance st + v"
    using chain_step_incoming[of e addr addr v wq st r st'] by blast
next
  assume "getRewardsFromChain cenv props = Inr cres"
  then obtain p where p: "parseProps (core cenv) props = Inr p"
    and r: "cres = chain_ledger cenv p"
    by (auto simp: getRewardsFromChain_Inr)
  from p have ad: "p_address p = address props" by (auto simp: parseProps_Inr)
  have "incoming_added (p_address p) (prevSharesBalance (chain_base_state cenv p))
          (fst (chain_fold cenv p))"
    unfolding chain_fold_def by (rule chain_map_incoming)
  with p r ad show "incoming_added (address props) (baseBalanceShares cres)
      (chain_unfiltered cenv props)"
    by (simp add: chain_unfiltered_def chain_ledger_base)
qed

theorem transfer_to_account_is_incoming_witness:
  "args self_transfer = TransferShares demo_account demo_account 7
   \<and> chain_step demo_account demo_queue demo_state self_transfer
       = (self_record 57\<lparr>shareRate := 0\<rparr>, demo_state\<lparr>prevSharesBalance := 57\<rparr>)
   \<and> prevSharesBalance demo_state = 50
   \<and> rtype (self_record 57\<lparr>shareRate := 0\<rparr>) = TransferIn
   \<and> balanceShares (self_record 57\<lparr>shareRate := 0\<rparr>) = prevSharesBalance demo_state + 7
   \<and> getRewardsFromChain self_chain demo_props = Inr self_result
   \<and> incoming_added (address demo_props) (baseBalanceShares self_result)
        (chain_unfiltered self_chain demo_props)
   \<and> map balanceShares (chain_unfiltered self_chain demo_props) = [57, 64]"
proof -
  have a: "args self_transfer = TransferShares demo_account demo_account 7"
    by (simp add: self_transfer_def)
  have b: "chain_step demo_account demo_queue demo_state self_transfer
       = (self_record 57\<lparr>shareRate := 0\<rparr>, demo_state\<lparr>prevSharesBalance := 57\<rparr>)"
    by code_simp
  note t = transfer_to_account_is_incoming
    [of self_transfer demo_account demo_account 7 demo_queue demo_state
        "self_record 57\<lparr>shareRate := 0\<rparr>" "demo_state\<lparr>prevSharesBalance := 57\<rparr>"
        self_chain demo_props self_result]
  have c: "prevSharesBalance demo_state = 50" by (simp add: demo_state_def)
  from t a b have d: "rtype (self_record 57\<lparr>shareRate := 0\<rparr>)
      = (if demo_account = zeroAddress then Submit else TransferIn)"
    and e: "balanceShares (self_record 57\<lparr>shareRate := 0\<rparr>) = prevSharesBalance demo_state + 7"
    by blast+
  have z: "demo_account \<noteq> zeroAddress" by (simp add: demo_account_def zeroAddress_def)
  from d z have d': "rtype (self_record 57\<lparr>shareRate := 0\<rparr>) = TransferIn" by simp
  from t self_chain_run
  have f: "incoming_added (address demo_props) (baseBalanceShares self_result)
        (chain_unfiltered self_chain demo_props)"
    by blast
  have g: "map balanceShares (chain_unfiltered self_chain demo_props) = [57, 64]"
    by (simp add: self_chain_unfiltered self_record_def)
  from a b c d' e f g self_chain_run show ?thesis by blast
qed

end
